theory Spec2Isabelle
  imports Complex_Main "HOL-Library.Monad_Syntax"
begin

section \<open>Strings and numbers of the host language\<close>

text \<open>
  A JavaScript string is a sequence of UTF-16 code units; a code unit is modelled as a
  natural number, so that the pound sign (163) and the euro sign (8364) are single
  elements, as they are for the regular expressions of the source. \<open>ascii\<close> turns a
  literal of the theory into such a string.
\<close>

type_synonym jchar = nat
type_synonym jstring = "jchar list"

definition ascii :: "string \<Rightarrow> jstring" where
  "ascii s = map of_char s"

text \<open>
  A JavaScript number is a double: a finite value, one of the two infinities, or NaN. A
  finite value is modelled as the real number it stands for. There is one zero: the sign
  of a zero is not modelled, so that the input \<open>-0\<close> is outside the model (a division by
  zero takes the sign of the numerator).
\<close>

datatype number = Num real | PosInf | NegInf | NaN

definition inf_of :: "bool \<Rightarrow> number" where
  "inf_of positive = (if positive then PosInf else NegInf)"

subsection \<open>Rounding to a double\<close>

text \<open>
  The four arithmetic operations return their exact result rounded to the nearest
  double, and to the one with an even significand on a tie (IEEE 754). \<open>binade\<close> finds the
  exponent \<open>e\<close> with \<open>2^e \<le> x < 2^(e+1)\<close> for a positive \<open>x\<close>, by halving or doubling at
  most \<open>fuel\<close> times. The doubles around \<open>x\<close> are the multiples of \<open>2^(e-52)\<close>, and those
  of \<open>2^-1074\<close> below \<open>2^-1022\<close>; a result that reaches \<open>2^1024\<close> is an infinity. The
  exponent of a double, and of a sum, product or quotient of two doubles, lies between
  \<open>-2200\<close> and \<open>2200\<close>; beyond that the fuel runs out on a value that is an infinity or
  zero whatever its exponent.
\<close>

fun binade :: "nat \<Rightarrow> real \<Rightarrow> int \<Rightarrow> int" where
  "binade 0 x e = e"
| "binade (Suc fuel) x e =
     (if 2 \<le> x then binade fuel (x / 2) (e + 1)
      else if x < 1 then binade fuel (x * 2) (e - 1)
      else e)"

text \<open>The nearest integer, the even one on a tie.\<close>

definition round_even :: "real \<Rightarrow> int" where
  "round_even q =
     (if q - of_int \<lfloor>q\<rfloor> < 1 / 2 then \<lfloor>q\<rfloor>
      else if 1 / 2 < q - of_int \<lfloor>q\<rfloor> then \<lfloor>q\<rfloor> + 1
      else if even \<lfloor>q\<rfloor> then \<lfloor>q\<rfloor> else \<lfloor>q\<rfloor> + 1)"

text \<open>The distance between the doubles of exponent \<open>e\<close>.\<close>

definition ulp_of :: "int \<Rightarrow> real" where
  "ulp_of e = (if 52 \<le> e then 2 ^ nat (e - 52) else 1 / 2 ^ nat (52 - e))"

definition to_double :: "real \<Rightarrow> number" where
  "to_double x =
     (if x = 0 then Num 0
      else
        let ulp = ulp_of (max (binade 2200 \<bar>x\<bar> 0) (- 1022));
            y = of_int (round_even (\<bar>x\<bar> / ulp)) * ulp
        in if 2 ^ 1024 \<le> y then inf_of (0 < x)
           else Num (if x < 0 then - y else y))"

subsection \<open>Arithmetic\<close>

fun num_neg :: "number \<Rightarrow> number" where
  "num_neg (Num x) = Num (- x)"
| "num_neg PosInf = NegInf"
| "num_neg NegInf = PosInf"
| "num_neg NaN = NaN"

fun num_add :: "number \<Rightarrow> number \<Rightarrow> number" where
  "num_add (Num x) (Num y) = to_double (x + y)"
| "num_add NaN _ = NaN"
| "num_add _ NaN = NaN"
| "num_add PosInf NegInf = NaN"
| "num_add NegInf PosInf = NaN"
| "num_add PosInf _ = PosInf"
| "num_add NegInf _ = NegInf"
| "num_add (Num x) b = b"

definition num_sub :: "number \<Rightarrow> number \<Rightarrow> number" where
  "num_sub a b = num_add a (num_neg b)"

fun num_mul :: "number \<Rightarrow> number \<Rightarrow> number" where
  "num_mul (Num x) (Num y) = to_double (x * y)"
| "num_mul NaN _ = NaN"
| "num_mul _ NaN = NaN"
| "num_mul (Num x) b = (if x = 0 then NaN else inf_of ((0 < x) = (b = PosInf)))"
| "num_mul a (Num y) = (if y = 0 then NaN else inf_of ((0 < y) = (a = PosInf)))"
| "num_mul a b = inf_of (a = b)"

fun num_div :: "number \<Rightarrow> number \<Rightarrow> number" where
  "num_div (Num x) (Num y) =
     (if y \<noteq> 0 then to_double (x / y) else if x = 0 then NaN else inf_of (0 < x))"
| "num_div NaN _ = NaN"
| "num_div _ NaN = NaN"
| "num_div (Num x) b = Num 0"
| "num_div a (Num y) = inf_of ((0 \<le> y) = (a = PosInf))"
| "num_div a b = NaN"

text \<open>The absolute value and the comparisons are exact.\<close>

fun num_abs :: "number \<Rightarrow> number" where
  "num_abs (Num x) = Num \<bar>x\<bar>"
| "num_abs NaN = NaN"
| "num_abs a = PosInf"

text \<open>\<open>a < b\<close>; every comparison with NaN is false.\<close>

fun num_lt :: "number \<Rightarrow> number \<Rightarrow> bool" where
  "num_lt (Num x) (Num y) = (x < y)"
| "num_lt NaN _ = False"
| "num_lt _ NaN = False"
| "num_lt a PosInf = (a \<noteq> PosInf)"
| "num_lt NegInf b = (b \<noteq> NegInf)"
| "num_lt a b = False"

text \<open>\<open>Math.max(a, b)\<close>: NaN when an argument is NaN.\<close>

fun num_max :: "number \<Rightarrow> number \<Rightarrow> number" where
  "num_max NaN _ = NaN"
| "num_max _ NaN = NaN"
| "num_max a b = (if num_lt a b then b else a)"

text \<open>Truthiness of a number: zero and NaN are falsy.\<close>

fun truthy_num :: "number \<Rightarrow> bool" where
  "truthy_num (Num x) = (x \<noteq> 0)"
| "truthy_num NaN = False"
| "truthy_num a = True"

fun isNaN :: "number \<Rightarrow> bool" where
  "isNaN NaN = True"
| "isNaN a = False"

subsection \<open>Printing a number with no decimals\<close>

fun digits :: "nat \<Rightarrow> jstring" where
  "digits n = (if n < 10 then [48 + n] else digits (n div 10) @ [48 + n mod 10])"

text \<open>
  \<open>x.toFixed(0)\<close>: the nearest integer, the larger one on a tie. From \<open>10^21\<close> on the
  runtime prints an exponent instead of the digits printed here, so the fit scorer
  below takes the printing function as a parameter and \<open>toFixed0\<close> only serves the
  closed examples.
\<close>

fun toFixed0 :: "number \<Rightarrow> jstring" where
  "toFixed0 (Num x) =
     (if x < 0 then 45 # digits (nat \<lfloor>- x + 1 / 2\<rfloor>)
      else digits (nat \<lfloor>x + 1 / 2\<rfloor>))"
| "toFixed0 PosInf = ascii ''Infinity''"
| "toFixed0 NegInf = ascii ''-Infinity''"
| "toFixed0 NaN = ascii ''NaN''"


section \<open>The fit scorer (gemini-service.ts, checkFitCompatibility)\<close>

text \<open>
  \<open>userMeasurements\<close> is the list \<open>Object.entries\<close> gives: the own properties of the
  object (its keys are distinct in the program). \<open>itemMeasurements\<close> is the map of the
  own properties of a plain object; the read \<open>itemMeasurements[key]\<close> also finds the
  members that a plain object inherits from \<open>Object.prototype\<close>, which are functions
  (and, for \<open>__proto__\<close>, the prototype itself): truthy values that are NaN as numbers.
\<close>

definition object_prototype :: "jstring list" where
  "object_prototype =
     [ascii ''constructor'', ascii ''hasOwnProperty'', ascii ''isPrototypeOf'',
      ascii ''propertyIsEnumerable'', ascii ''toLocaleString'', ascii ''toString'',
      ascii ''valueOf'', ascii ''__proto__'', ascii ''__defineGetter__'',
      ascii ''__defineSetter__'', ascii ''__lookupGetter__'', ascii ''__lookupSetter__'']"

datatype property = Own number | Inherited

definition read_property :: "(jstring \<rightharpoonup> number) \<Rightarrow> jstring \<Rightarrow> property option" where
  "read_property obj key =
     (case obj key of
        Some v \<Rightarrow> Some (Own v)
      | None \<Rightarrow> if key \<in> set object_prototype then Some Inherited else None)"

fun truthy_property :: "property \<Rightarrow> bool" where
  "truthy_property (Own v) = truthy_num v"
| "truthy_property Inherited = True"

text \<open>The value of a property in an arithmetic expression.\<close>

fun to_number :: "property \<Rightarrow> number" where
  "to_number (Own v) = v"
| "to_number Inherited = NaN"

record fit_acc =
  acc_warnings :: "jstring list"
  acc_recommendations :: "jstring list"
  totalDiff :: number
  measurementCount :: number

record fit_result =
  fits :: bool
  score :: number
  warnings :: "jstring list"
  recommendations :: "jstring list"

definition percent_diff :: "number \<Rightarrow> number \<Rightarrow> number" where
  "percent_diff itemValue userValue =
     num_mul (num_div (num_sub itemValue userValue) userValue) (Num 100)"

definition tight_warning :: "(number \<Rightarrow> jstring) \<Rightarrow> jstring \<Rightarrow> number \<Rightarrow> jstring" where
  "tight_warning fmt key diff =
     key @ ascii '' may be tight ('' @ fmt (num_abs diff) @ ascii ''% smaller)''"

definition loose_warning :: "(number \<Rightarrow> jstring) \<Rightarrow> jstring \<Rightarrow> number \<Rightarrow> jstring" where
  "loose_warning fmt key diff =
     key @ ascii '' may be loose ('' @ fmt diff @ ascii ''% larger)''"

text \<open>One round of the loop over the user's entries.\<close>

definition compare_entry ::
  "(number \<Rightarrow> jstring) \<Rightarrow> (jstring \<rightharpoonup> number) \<Rightarrow> jstring \<times> number \<Rightarrow> fit_acc \<Rightarrow> fit_acc" where
  "compare_entry fmt itemMeasurements entry acc =
     (case read_property itemMeasurements (fst entry) of
        None \<Rightarrow> acc
      | Some itemValue \<Rightarrow>
          if \<not> truthy_property itemValue then acc
          else
            let key = fst entry;
                diff = percent_diff (to_number itemValue) (snd entry);
                acc1 = acc\<lparr>totalDiff := num_add (totalDiff acc) (num_abs diff),
                          measurementCount := num_add (measurementCount acc) (Num 1)\<rparr>
            in if num_lt diff (Num (- 5)) then
                 acc1\<lparr>acc_warnings := acc_warnings acc1 @ [tight_warning fmt key diff],
                      acc_recommendations := acc_recommendations acc1 @
                        [ascii ''Consider sizing up for better '' @ key @ ascii '' fit'']\<rparr>
               else if num_lt (Num 10) diff then
                 acc1\<lparr>acc_warnings := acc_warnings acc1 @ [loose_warning fmt key diff],
                      acc_recommendations := acc_recommendations acc1 @
                        [ascii ''Consider sizing down or tailoring the '' @ key]\<rparr>
               else acc1)"

definition fit_start :: fit_acc where
  "fit_start = \<lparr>acc_warnings = [], acc_recommendations = [], totalDiff = Num 0,
                 measurementCount = Num 0\<rparr>"

definition fit_verdict :: "fit_acc \<Rightarrow> fit_result" where
  "fit_verdict acc =
     (let avgDiff = (if num_lt (Num 0) (measurementCount acc)
                     then num_div (totalDiff acc) (measurementCount acc)
                     else Num 100);
          score = num_max (Num 0) (num_sub (Num 100) avgDiff)
      in \<lparr>fits = (num_lt (Num 70) score \<and> length (acc_warnings acc) = 0),
          score = score,
          warnings = acc_warnings acc,
          recommendations = acc_recommendations acc\<rparr>)"

definition checkFitCompatibility ::
  "(number \<Rightarrow> jstring) \<Rightarrow> (jstring \<times> number) list \<Rightarrow> (jstring \<rightharpoonup> number) \<Rightarrow> fit_result" where
  "checkFitCompatibility fmt userMeasurements itemMeasurements =
     fit_verdict (fold (compare_entry fmt itemMeasurements) userMeasurements fit_start)"


section \<open>Regular expressions\<close>

text \<open>
  The source scans HTML with regular expressions. A pattern is transcribed into the
  datatype below, and \<open>matches\<close> is the backtracking matcher of the language: it returns
  every way the pattern can match at the head of the input, in the order in which the
  engine would try them, so that its first element is the match the engine reports.
  A state holds the code unit before the current position (for \<open>^\<close> and \<open>\b\<close>), the rest
  of the input, and the capture groups closed so far (the latest first).

  \<open>Class negated ranges\<close> is a character class, \<open>Star greedy r\<close> is \<open>r*\<close> or \<open>r*?\<close>,
  \<open>Group i r\<close> is the \<open>i\<close>-th capture group, \<open>Bol\<close> and \<open>Eol\<close> are \<open>^\<close> and \<open>$\<close> (without the
  \<open>m\<close> flag), \<open>WordB\<close> is \<open>\b\<close>. No pattern of the source has a group inside a repetition
  or a backreference.
\<close>

datatype regex =
    Class bool "(jchar \<times> jchar) list"
  | Eps
  | Seq regex regex
  | Alt regex regex
  | Star bool regex
  | Group nat regex
  | Bol
  | Eol
  | WordB

definition in_class :: "bool \<Rightarrow> (jchar \<times> jchar) list \<Rightarrow> jchar \<Rightarrow> bool" where
  "in_class negated ranges c = (list_ex (\<lambda>r. fst r \<le> c \<and> c \<le> snd r) ranges \<noteq> negated)"

definition is_word :: "jchar \<Rightarrow> bool" where
  "is_word c = in_class False [(97, 122), (65, 90), (48, 57), (95, 95)] c"

type_synonym captures = "(nat \<times> jstring) list"
type_synonym mstate = "jchar option \<times> jstring \<times> captures"

text \<open>
  An iteration of a repetition that consumes nothing is not taken (as the language
  specifies), which is also what makes the matcher terminate.
\<close>

function (sequential) matches :: "regex \<Rightarrow> mstate \<Rightarrow> mstate list" where
  "matches (Class n rs) (p, s, c) =
     (case s of [] \<Rightarrow> [] | x # t \<Rightarrow> if in_class n rs x then [(Some x, t, c)] else [])"
| "matches Eps st = [st]"
| "matches (Seq a b) st = concat (map (matches b) (matches a st))"
| "matches (Alt a b) st = matches a st @ matches b st"
| "matches (Star greedy r) (p, s, c) =
     (let more = concat (map (\<lambda>st'. if length (fst (snd st')) < length s
                                      then matches (Star greedy r) st' else [])
                             (matches r (p, s, c)))
      in if greedy then more @ [(p, s, c)] else (p, s, c) # more)"
| "matches (Group i r) (p, s, c) =
     map (\<lambda>st'. (fst st', fst (snd st'),
                 (i, take (length s - length (fst (snd st'))) s) # snd (snd st')))
         (matches r (p, s, c))"
| "matches Bol (p, s, c) = (if p = None then [(p, s, c)] else [])"
| "matches Eol (p, s, c) = (if s = [] then [(p, s, c)] else [])"
| "matches WordB (p, s, c) =
     (if (case p of None \<Rightarrow> False | Some x \<Rightarrow> is_word x) \<noteq>
         (case s of [] \<Rightarrow> False | x # _ \<Rightarrow> is_word x)
      then [(p, s, c)] else [])"
  by pat_completeness auto
termination
  by (relation "inv_image (measure size <*lex*> measure length) (\<lambda>(r, st). (r, fst (snd st)))")
    auto

text \<open>
  The leftmost match: the first position, from the current one on, where the pattern
  matches; the result is the input from that position on and the state after the match.
\<close>

fun search :: "regex \<Rightarrow> jchar option \<Rightarrow> jstring \<Rightarrow> (jstring \<times> mstate) option" where
  "search r p [] = (case matches r (p, [], []) of m # _ \<Rightarrow> Some ([], m) | [] \<Rightarrow> None)"
| "search r p (x # t) =
     (case matches r (p, x # t, []) of
        m # _ \<Rightarrow> Some (x # t, m)
      | [] \<Rightarrow> search r (Some x) t)"

text \<open>\<open>pattern.test(s)\<close>, for a pattern without the \<open>g\<close> flag.\<close>

definition test :: "regex \<Rightarrow> jstring \<Rightarrow> bool" where
  "test r s = (search r None s \<noteq> None)"

text \<open>\<open>match[i]\<close>; every group of the patterns below takes part in every match.\<close>

definition grp :: "captures \<Rightarrow> nat \<Rightarrow> jstring" where
  "grp caps i = (case map_of caps i of Some w \<Rightarrow> w | None \<Rightarrow> [])"

lemma search_start_length:
  "search r p s = Some (start, st) \<Longrightarrow> length start \<le> length s"
  by (induction s arbitrary: p) (auto split: list.splits intro: le_SucI)

text \<open>
  The loop \<open>while ((match = re.exec(s)) !== null) { ... }\<close> over a pattern with the \<open>g\<close>
  flag: the captures of the successive matches. The next search starts where the last
  match ended; after an empty match it would start at the same place and find the same
  match again, for ever: that is the result \<open>None\<close>.
\<close>

function exec_all :: "regex \<Rightarrow> jchar option \<Rightarrow> jstring \<Rightarrow> captures list option" where
  "exec_all r p s =
     (case search r p s of
        None \<Rightarrow> Some []
      | Some (start, p', s', caps) \<Rightarrow>
          if length s' < length start then map_option ((#) caps) (exec_all r p' s')
          else None)"
  by pat_completeness auto
termination
  by (relation "measure (\<lambda>(r, p, s). length s)") (auto dest: search_start_length)

declare exec_all.simps [simp del]

subsection \<open>Building patterns\<close>

definition chr :: "char \<Rightarrow> regex" where
  "chr c = Class False [(of_char c, of_char c)]"

text \<open>A letter of a pattern with the \<open>i\<close> flag matches both of its cases.\<close>

definition chr_i :: "char \<Rightarrow> regex" where
  "chr_i c =
     (let n = of_char c in
      if 97 \<le> n \<and> n \<le> 122 then Class False [(n, n), (n - 32, n - 32)]
      else if 65 \<le> n \<and> n \<le> 90 then Class False [(n, n), (n + 32, n + 32)]
      else Class False [(n, n)])"

definition lit :: "string \<Rightarrow> regex" where
  "lit s = foldr (\<lambda>c r. Seq (chr c) r) s Eps"

definition lit_i :: "string \<Rightarrow> regex" where
  "lit_i s = foldr (\<lambda>c r. Seq (chr_i c) r) s Eps"

definition seqs :: "regex list \<Rightarrow> regex" where
  "seqs rs = foldr Seq rs Eps"

definition alts :: "regex \<Rightarrow> regex list \<Rightarrow> regex" where
  "alts r rs = foldr Alt (butlast (r # rs)) (last (r # rs))"

definition Plus :: "bool \<Rightarrow> regex \<Rightarrow> regex" where
  "Plus greedy r = Seq r (Star greedy r)"

definition Opt :: "regex \<Rightarrow> regex" where
  "Opt r = Alt r Eps"

text \<open>\<open>\s\<close>: white space and line terminators.\<close>

definition space_ranges :: "(jchar \<times> jchar) list" where
  "space_ranges = [(9, 13), (32, 32), (160, 160), (5760, 5760), (8192, 8202), (8232, 8233),
                   (8239, 8239), (8287, 8287), (12288, 12288), (65279, 65279)]"

definition is_space :: "jchar \<Rightarrow> bool" where
  "is_space c = in_class False space_ranges c"

definition space :: regex where
  "space = Class False space_ranges"

definition digit :: regex where
  "digit = Class False [(48, 57)]"

definition any_char :: regex where
  "any_char = Class True []"

definition quote :: regex where
  "quote = Class False [(34, 34), (39, 39)]"

definition not_quote :: regex where
  "not_quote = Class True [(34, 34), (39, 39)]"

definition not_gt :: regex where
  "not_gt = Class True [(62, 62)]"

definition not_lt :: regex where
  "not_lt = Class True [(60, 60)]"

section \<open>String functions of the host language\<close>

definition starts_with :: "jstring \<Rightarrow> jstring \<Rightarrow> bool" where
  "starts_with s pre = (take (length pre) s = pre)"

text \<open>\<open>s.includes(sub)\<close>.\<close>

fun str_includes :: "jstring \<Rightarrow> jstring \<Rightarrow> bool" where
  "str_includes [] sub = (sub = [])"
| "str_includes (x # xs) sub = (starts_with (x # xs) sub \<or> str_includes xs sub)"

definition trim :: "jstring \<Rightarrow> jstring" where
  "trim s = rev (dropWhile is_space (rev (dropWhile is_space s)))"

text \<open>\<open>s.split(sep)\<close> for a separator of one code unit.\<close>

fun split_on :: "jchar \<Rightarrow> jstring \<Rightarrow> jstring list" where
  "split_on sep [] = [[]]"
| "split_on sep (x # xs) =
     (if x = sep then [] # split_on sep xs
      else (case split_on sep xs of w # ws \<Rightarrow> (x # w) # ws | [] \<Rightarrow> [[x]]))"

text \<open>A \<open>Set\<close> of strings keeps the order of insertion.\<close>

definition set_add :: "jstring list \<Rightarrow> jstring \<Rightarrow> jstring list" where
  "set_add xs x = (if x \<in> set xs then xs else xs @ [x])"

subsection \<open>parseFloat\<close>

definition is_digit :: "jchar \<Rightarrow> bool" where
  "is_digit c = (48 \<le> c \<and> c \<le> 57)"

definition digits_value :: "jstring \<Rightarrow> nat" where
  "digits_value ds = foldl (\<lambda>a d. 10 * a + (d - 48)) 0 ds"

text \<open>The sign in front of a numeral: whether it is negative, and the text after it.\<close>

fun signed :: "jstring \<Rightarrow> bool \<times> jstring" where
  "signed [] = (False, [])"
| "signed (x # xs) = (if x = 45 then (True, xs) else if x = 43 then (False, xs)
                      else (False, x # xs))"

text \<open>The exponent part that follows the digits of a numeral, or 0 when there is none.\<close>

fun exponent :: "jstring \<Rightarrow> int" where
  "exponent [] = 0"
| "exponent (x # xs) =
     (if x = 101 \<or> x = 69 then
        (let ds = takeWhile is_digit (snd (signed xs)) in
         if ds = [] then 0
         else if fst (signed xs) then - int (digits_value ds) else int (digits_value ds))
      else 0)"

text \<open>
  \<open>parseFloat(s)\<close>: leading white space is dropped, the longest prefix that is a decimal
  numeral is read, NaN when there is none. The value is exact (not rounded to a double).
\<close>

definition parseFloat :: "jstring \<Rightarrow> number" where
  "parseFloat s =
     (let t = dropWhile is_space s;
          negative = fst (signed t);
          u = snd (signed t)
      in if starts_with u (ascii ''Infinity'') then inf_of (\<not> negative)
         else
           let ip = takeWhile is_digit u;
               r1 = dropWhile is_digit u;
               dot = (case r1 of [] \<Rightarrow> False | x # _ \<Rightarrow> x = 46);
               fp = (if dot then takeWhile is_digit (tl r1) else []);
               r2 = (if dot then dropWhile is_digit (tl r1) else r1)
           in if ip = [] \<and> fp = [] then NaN
              else
                let mantissa = real (digits_value ip) + real (digits_value fp) / 10 ^ length fp;
                    e = exponent r2;
                    scaled = (if 0 \<le> e then mantissa * 10 ^ nat e else mantissa / 10 ^ nat (- e))
                in Num (if negative then - scaled else scaled))"


section \<open>The extractors (scraper-service.ts)\<close>

text \<open>
  An object used as a dictionary (\<open>Record<string, T>\<close>) is the map of its own
  properties. \<open>obj[key] = v\<close> with a string or a number \<open>v\<close> stores the property,
  except under the key \<open>__proto__\<close>: on a plain object that assignment reaches the
  setter of \<open>Object.prototype\<close>, which ignores a value that is not an object, and
  nothing is stored. The keys that the source reads from such an object (\<open>og:title\<close>
  and the like) are not names of members of \<open>Object.prototype\<close>, so that a read is a
  lookup in the map. A thrown value is an \<open>Error\<close> with its message, or something else.
\<close>

definition assign :: "jstring \<Rightarrow> 'v \<Rightarrow> (jstring \<rightharpoonup> 'v) \<Rightarrow> (jstring \<rightharpoonup> 'v)" where
  "assign key v obj = (if key = ascii ''__proto__'' then obj else obj(key \<mapsto> v))"

datatype thrown = JsError jstring | NonError

subsection \<open>extractMetaTags\<close>

definition ogRegex :: regex where
  "ogRegex = seqs [lit_i ''<meta'', Plus True space, lit_i ''property='', quote, lit_i ''og:'',
     Group 1 (Plus True not_quote), quote, Plus True space, lit_i ''content='', quote,
     Group 2 (Plus True not_quote), quote]"

definition twitterRegex :: regex where
  "twitterRegex = seqs [lit_i ''<meta'', Plus True space, lit_i ''name='', quote,
     lit_i ''twitter:'', Group 1 (Plus True not_quote), quote, Plus True space,
     lit_i ''content='', quote, Group 2 (Plus True not_quote), quote]"

definition metaRegex :: regex where
  "metaRegex = seqs [lit_i ''<meta'', Plus True space, lit_i ''name='', quote,
     Group 1 (Plus True not_quote), quote, Plus True space, lit_i ''content='', quote,
     Group 2 (Plus True not_quote), quote]"

text \<open>The key and the content that a match of each pattern stores.\<close>

definition og_entry :: "captures \<Rightarrow> jstring \<times> jstring" where
  "og_entry m = (ascii ''og:'' @ grp m 1, grp m 2)"

definition twitter_entry :: "captures \<Rightarrow> jstring \<times> jstring" where
  "twitter_entry m = (ascii ''twitter:'' @ grp m 1, grp m 2)"

definition meta_entry :: "captures \<Rightarrow> jstring \<times> jstring" where
  "meta_entry m = (grp m 1, grp m 2)"

definition store :: "jstring \<times> jstring \<Rightarrow> (jstring \<rightharpoonup> jstring) \<Rightarrow> (jstring \<rightharpoonup> jstring)" where
  "store e metaTags = assign (fst e) (snd e) metaTags"

definition extractMetaTags :: "jstring \<Rightarrow> (jstring \<rightharpoonup> jstring) option" where
  "extractMetaTags html = do {
     og \<leftarrow> exec_all ogRegex None html;
     tw \<leftarrow> exec_all twitterRegex None html;
     me \<leftarrow> exec_all metaRegex None html;
     Some (fold (\<lambda>m. store (meta_entry m)) me
            (fold (\<lambda>m. store (twitter_entry m)) tw
              (fold (\<lambda>m. store (og_entry m)) og Map.empty)))
   }"

subsection \<open>extractJsonLd\<close>

datatype json =
    JNull
  | JBool bool
  | JNum real
  | JStr jstring
  | JArr "json list"
  | JObj "(jstring \<times> json) list"

definition jsonLdRegex :: regex where
  "jsonLdRegex = seqs [lit_i ''<script'', Plus True space, lit_i ''type='', quote,
     lit_i ''application/ld+json'', quote, lit_i ''>'', Group 1 (Plus True not_lt),
     lit_i ''</script>'']"

text \<open>
  \<open>JSON.parse\<close> is a function of the runtime and a parameter here: \<open>None\<close> when it throws
  (the block is then skipped).
\<close>

definition extractJsonLd :: "(jstring \<Rightarrow> json option) \<Rightarrow> jstring \<Rightarrow> json list option" where
  "extractJsonLd parse html = do {
     ms \<leftarrow> exec_all jsonLdRegex None html;
     Some (List.map_filter (\<lambda>m. parse (grp m 1)) ms)
   }"

subsection \<open>extractImages\<close>

definition imgRegex :: regex where
  "imgRegex = seqs [lit_i ''<img'', Plus True not_gt, lit_i ''src='', quote,
     Group 1 (Plus True not_quote), quote]"

definition dataSrcRegex :: regex where
  "dataSrcRegex = seqs [lit_i ''data-src='', quote, Group 1 (Plus True not_quote), quote]"

text \<open>
  \<open>url.startsWith('http') ? url : new URL(url, baseUrl).toString()\<close>; the resolution of a
  relative URL is a function of the runtime, which throws on an invalid URL.
\<close>

definition absolute_url ::
  "(jstring \<Rightarrow> jstring \<Rightarrow> thrown + jstring) \<Rightarrow> jstring \<Rightarrow> jstring \<Rightarrow> thrown + jstring" where
  "absolute_url resolve baseUrl url =
     (if starts_with url (ascii ''http'') then Inr url else resolve url baseUrl)"

fun img_pass ::
  "(jstring \<Rightarrow> jstring \<Rightarrow> thrown + jstring) \<Rightarrow> jstring \<Rightarrow> captures list \<Rightarrow> jstring list \<Rightarrow>
   thrown + jstring list" where
  "img_pass resolve baseUrl [] images = Inr images"
| "img_pass resolve baseUrl (m # ms) images =
     (if grp m 1 \<noteq> [] \<and> \<not> str_includes (grp m 1) (ascii ''icon'') \<and>
         \<not> str_includes (grp m 1) (ascii ''logo'')
      then (case absolute_url resolve baseUrl (grp m 1) of
              Inl e \<Rightarrow> Inl e
            | Inr u \<Rightarrow> img_pass resolve baseUrl ms (set_add images u))
      else img_pass resolve baseUrl ms images)"

fun data_src_pass ::
  "(jstring \<Rightarrow> jstring \<Rightarrow> thrown + jstring) \<Rightarrow> jstring \<Rightarrow> captures list \<Rightarrow> jstring list \<Rightarrow>
   thrown + jstring list" where
  "data_src_pass resolve baseUrl [] images = Inr images"
| "data_src_pass resolve baseUrl (m # ms) images =
     (if grp m 1 \<noteq> []
      then (case absolute_url resolve baseUrl (grp m 1) of
              Inl e \<Rightarrow> Inl e
            | Inr u \<Rightarrow> data_src_pass resolve baseUrl ms (set_add images u))
      else data_src_pass resolve baseUrl ms images)"

definition extractImages ::
  "(jstring \<Rightarrow> jstring \<Rightarrow> thrown + jstring) \<Rightarrow> jstring \<Rightarrow> jstring \<Rightarrow>
   (thrown + jstring list) option" where
  "extractImages resolve html baseUrl = do {
     srcs \<leftarrow> exec_all imgRegex None html;
     lazy \<leftarrow> exec_all dataSrcRegex None html;
     Some (case img_pass resolve baseUrl srcs [] of
             Inl e \<Rightarrow> Inl e
           | Inr images \<Rightarrow> data_src_pass resolve baseUrl lazy images)
   }"

subsection \<open>extractSizes\<close>

definition sizePatterns :: "regex list" where
  "sizePatterns =
     [seqs [WordB, Group 1 (alts (lit ''XXS'') [lit ''XS'', lit ''S'', lit ''M'', lit ''L'',
              lit ''XL'', lit ''XXL'', lit ''XXXL'']), WordB],
      seqs [WordB, Group 1 (seqs [lit_i ''size'', Star True space, Plus True digit]), WordB],
      seqs [WordB, Group 1 (seqs [Plus True digit, Class False [(65, 90)]]), WordB]]"

fun size_passes ::
  "(jstring \<Rightarrow> jstring) \<Rightarrow> regex list \<Rightarrow> jstring \<Rightarrow> jstring list \<Rightarrow> jstring list option" where
  "size_passes upper [] html sizes = Some sizes"
| "size_passes upper (pattern # patterns) html sizes = do {
     ms \<leftarrow> exec_all pattern None html;
     size_passes upper patterns html (fold (\<lambda>m acc. set_add acc (upper (grp m 1))) ms sizes)
   }"

definition extractSizes :: "(jstring \<Rightarrow> jstring) \<Rightarrow> jstring \<Rightarrow> jstring list option" where
  "extractSizes upper html = size_passes upper sizePatterns html []"

subsection \<open>extractPrice\<close>

definition currency_symbol :: regex where
  "currency_symbol = Class False [(36, 36), (163, 163), (8364, 8364)]"

definition price_number :: regex where
  "price_number = Group 1 (seqs [Plus True (Class False [(48, 57), (44, 44)]), Opt (chr CHR ''.''),
     Star True digit])"

text \<open>The four patterns of \<open>pricePatterns\<close>, in the order of the array.\<close>

definition symbol_before :: regex where
  "symbol_before = seqs [currency_symbol, Star True space, price_number]"

definition symbol_after :: regex where
  "symbol_after = seqs [price_number, Star True space, currency_symbol]"

definition price_field :: regex where
  \<open>price_field = seqs [lit_i ''"price"'', Star True space, lit_i '':'', Star True space,
     Opt (chr (CHR 0x22)), price_number, Opt (chr (CHR 0x22))]\<close>

definition data_price :: regex where
  "data_price = seqs [lit_i ''data-price='', quote, price_number]"

definition pricePatterns :: "regex list" where
  "pricePatterns = [symbol_before, symbol_after, price_field, data_price]"

definition detect_currency :: "jstring \<Rightarrow> jstring" where
  "detect_currency html =
     (if 163 \<in> set html then ascii ''GBP''
      else if 8364 \<in> set html then ascii ''EUR''
      else ascii ''USD'')"

text \<open>The number that a match of a price pattern stands for: the commas are removed.\<close>

definition matched_price :: "captures \<Rightarrow> number" where
  "matched_price m = parseFloat (filter (\<lambda>c. c \<noteq> 44) (grp m 1))"

text \<open>The loop over the patterns; \<open>None\<close> is the empty object.\<close>

fun try_patterns :: "regex list \<Rightarrow> jstring \<Rightarrow> (number \<times> jstring) option" where
  "try_patterns [] html = None"
| "try_patterns (pattern # patterns) html =
     (case search pattern None html of
        None \<Rightarrow> try_patterns patterns html
      | Some found \<Rightarrow>
          if \<not> isNaN (matched_price (snd (snd (snd found))))
          then Some (matched_price (snd (snd (snd found))), detect_currency html)
          else try_patterns patterns html)"

definition extractPrice :: "jstring \<Rightarrow> (number \<times> jstring) option" where
  "extractPrice html = try_patterns pricePatterns html"

subsection \<open>scrapeSizeChart\<close>

definition tableRegex :: regex where
  "tableRegex = seqs [lit_i ''<table'', Star True not_gt, lit_i ''>'',
     Group 1 (Star False any_char), lit_i ''</table>'']"

definition keywordRegex :: regex where
  "keywordRegex = alts (lit_i ''size'') [lit_i ''chest'', lit_i ''waist'', lit_i ''length'']"

definition headerRegex :: regex where
  "headerRegex = seqs [lit_i ''<th'', Star True not_gt, lit_i ''>'', Group 1 (Plus True not_lt),
     lit_i ''</th>'']"

definition rowRegex :: regex where
  "rowRegex = seqs [lit_i ''<tr'', Star True not_gt, lit_i ''>'', Group 1 (Star False any_char),
     lit_i ''</tr>'']"

definition cellRegex :: regex where
  "cellRegex = seqs [lit_i ''<td'', Star True not_gt, lit_i ''>'', Group 1 (Plus True not_lt),
     lit_i ''</td>'']"

definition sizeLabelRegex :: regex where
  "sizeLabelRegex = seqs [Bol, Group 1 (alts (lit_i ''XXS'') [lit_i ''XS'', lit_i ''S'', lit_i ''M'',
     lit_i ''L'', lit_i ''XL'', lit_i ''XXL'', lit_i ''XXXL'', Plus True digit]), Eol]"

type_synonym size_chart = "jstring \<rightharpoonup> (jstring \<rightharpoonup> number)"

text \<open>
  The measurements of one row: the cells from the second on, each under the lower-cased
  header of its column, when it parses as a number. \<open>toLowerCase\<close> is a function of the
  runtime and a parameter.
\<close>

definition row_measurements ::
  "(jstring \<Rightarrow> jstring) \<Rightarrow> jstring list \<Rightarrow> jstring list \<Rightarrow> (jstring \<rightharpoonup> number)" where
  "row_measurements lower headers cells =
     fold (\<lambda>i entry. if \<not> isNaN (parseFloat (cells ! i))
                      then assign (lower (headers ! i)) (parseFloat (cells ! i)) entry
                      else entry)
          [1 ..< min (length cells) (length headers)] Map.empty"

definition add_row ::
  "(jstring \<Rightarrow> jstring) \<Rightarrow> jstring list \<Rightarrow> jstring list \<Rightarrow> size_chart \<Rightarrow> size_chart" where
  "add_row lower headers cells sizeChart =
     (if 0 < length cells \<and> test sizeLabelRegex (cells ! 0)
      then sizeChart(cells ! 0 \<mapsto> row_measurements lower headers cells)
      else sizeChart)"

fun parse_rows ::
  "(jstring \<Rightarrow> jstring) \<Rightarrow> jstring list \<Rightarrow> captures list \<Rightarrow> size_chart \<Rightarrow> size_chart option" where
  "parse_rows lower headers [] sizeChart = Some sizeChart"
| "parse_rows lower headers (row # rows) sizeChart = do {
     cells \<leftarrow> exec_all cellRegex None (grp row 1);
     parse_rows lower headers rows
       (add_row lower headers (map (\<lambda>m. trim (grp m 1)) cells) sizeChart)
   }"

definition parse_table ::
  "(jstring \<Rightarrow> jstring) \<Rightarrow> jstring \<Rightarrow> size_chart \<Rightarrow> size_chart option" where
  "parse_table lower tableHtml sizeChart = do {
     headers \<leftarrow> exec_all headerRegex None tableHtml;
     rows \<leftarrow> exec_all rowRegex None tableHtml;
     parse_rows lower (map (\<lambda>m. trim (grp m 1)) headers) rows sizeChart
   }"

text \<open>
  The loop over the tables of the page, given by their inner HTML: a table without a
  sizing keyword is passed over (\<open>continue\<close>), and the loop ends (\<open>break\<close>) once the chart
  has a size.
\<close>

fun scan_tables ::
  "(jstring \<Rightarrow> jstring) \<Rightarrow> jstring list \<Rightarrow> size_chart \<Rightarrow> size_chart option" where
  "scan_tables lower [] sizeChart = Some sizeChart"
| "scan_tables lower (tableHtml # tables) sizeChart =
     (if \<not> test keywordRegex tableHtml then scan_tables lower tables sizeChart
      else do {
        filled \<leftarrow> parse_table lower tableHtml sizeChart;
        if filled \<noteq> Map.empty then Some filled else scan_tables lower tables filled
      })"

text \<open>
  The outcome of an asynchronous function is \<open>None\<close> when it never settles, and otherwise
  the error it rejects with or the value it resolves to. \<open>fetched\<close> is the outcome of
  \<open>axios.get\<close>: an error, or the body of the response. First the \<open>try\<close> block, then the
  function with its \<open>catch\<close>.
\<close>

definition scrapeSizeChart_try ::
  "(jstring \<Rightarrow> jstring) \<Rightarrow> thrown + jstring \<Rightarrow> (thrown + size_chart) option" where
  "scrapeSizeChart_try lower fetched =
     (case fetched of
        Inl e \<Rightarrow> Some (Inl e)
      | Inr html \<Rightarrow> do {
          tables \<leftarrow> exec_all tableRegex None html;
          sizeChart \<leftarrow> scan_tables lower (map (\<lambda>m. grp m 1) tables) Map.empty;
          Some (Inr sizeChart)
        })"

definition scrapeSizeChart ::
  "(jstring \<Rightarrow> jstring) \<Rightarrow> thrown + jstring \<Rightarrow> (thrown + size_chart) option" where
  "scrapeSizeChart lower fetched =
     map_option (\<lambda>outcome. case outcome of Inl e \<Rightarrow> Inr Map.empty | Inr sizeChart \<Rightarrow> Inr sizeChart)
       (scrapeSizeChart_try lower fetched)"

subsection \<open>scrapeProductPage\<close>

text \<open>
  The fields that \<open>scrapeProductPage\<close> sets. The JSON-LD data is untyped (\<open>any\<close>), so
  \<open>brand\<close>, \<open>currency\<close> and \<open>imageUrl\<close> can hold any JSON value; \<open>None\<close> is \<open>undefined\<close>.
\<close>

record ProductData =
  name :: "jstring option"
  brand :: "json option"
  price :: "number option"
  currency :: "json option"
  imageUrl :: "json option"
  sizes :: "jstring list option"
  description :: "jstring option"
  category :: "jstring option"

fun truthy_json :: "json \<Rightarrow> bool" where
  "truthy_json JNull = False"
| "truthy_json (JBool b) = b"
| "truthy_json (JNum x) = (x \<noteq> 0)"
| "truthy_json (JStr s) = (s \<noteq> [])"
| "truthy_json (JArr xs) = True"
| "truthy_json (JObj kvs) = True"

definition truthy :: "json option \<Rightarrow> bool" where
  "truthy v = (case v of None \<Rightarrow> False | Some x \<Rightarrow> truthy_json x)"

definition truthy_str :: "jstring option \<Rightarrow> bool" where
  "truthy_str v = (case v of None \<Rightarrow> False | Some s \<Rightarrow> s \<noteq> [])"

definition truthy_number :: "number option \<Rightarrow> bool" where
  "truthy_number v = (case v of None \<Rightarrow> False | Some n \<Rightarrow> truthy_num n)"

text \<open>\<open>a || b\<close>, for the truthiness of the type of \<open>a\<close>.\<close>

definition js_or :: "('a \<Rightarrow> bool) \<Rightarrow> 'a \<Rightarrow> 'a \<Rightarrow> 'a" where
  "js_or is_truthy a b = (if is_truthy a then a else b)"

text \<open>
  \<open>v.k\<close> for a value \<open>v\<close> that is not \<open>null\<close>, and one of the property names read below
  (none is a property of a string, a number, a boolean or an array); \<open>v?.k\<close>.
\<close>

fun get_prop :: "json \<Rightarrow> jstring \<Rightarrow> json option" where
  "get_prop (JObj kvs) k = map_of kvs k"
| "get_prop v k = None"

fun opt_prop :: "json option \<Rightarrow> jstring \<Rightarrow> json option" where
  "opt_prop None k = None"
| "opt_prop (Some JNull) k = None"
| "opt_prop (Some v) k = get_prop v k"

text \<open>The message of the \<open>TypeError\<close> of a property read on \<open>null\<close> or \<open>undefined\<close> (as V8 words it).\<close>

definition cannot_read :: "string \<Rightarrow> string \<Rightarrow> thrown" where
  \<open>cannot_read what k =
     JsError (ascii ''Cannot read properties of '' @ ascii what @ ascii '' (reading ''
              @ [39] @ ascii k @ [39] @ ascii '')'')\<close>

text \<open>\<open>Array.isArray(v) ? v[0] : v\<close>.\<close>

fun first_of :: "json \<Rightarrow> json option" where
  "first_of (JArr []) = None"
| "first_of (JArr (x # xs)) = Some x"
| "first_of v = Some v"

text \<open>\<open>typeof v === 'string' ? v : undefined\<close>.\<close>

fun string_or_undefined :: "json option \<Rightarrow> jstring option" where
  "string_or_undefined (Some (JStr s)) = Some s"
| "string_or_undefined v = None"

text \<open>
  \<open>parseFloat(v)\<close> for a JSON value: the value is first turned into a string. A number
  reads back as itself, an array as its first element (the elements are joined by
  commas, which end a numeral).
\<close>

fun parseFloat_of :: "json \<Rightarrow> number" where
  "parseFloat_of (JStr s) = parseFloat s"
| "parseFloat_of (JNum x) = Num x"
| "parseFloat_of (JArr (x # xs)) = parseFloat_of x"
| "parseFloat_of v = NaN"

definition is_product :: "json \<Rightarrow> bool" where
  "is_product data =
     (get_prop data (ascii ''@type'') = Some (JStr (ascii ''Product'')) \<or>
      get_prop data (ascii ''type'') = Some (JStr (ascii ''Product'')))"

text \<open>The right-hand sides of the assignments in the loop over the JSON-LD blocks.\<close>

definition name_candidate :: "json \<Rightarrow> jstring option" where
  "name_candidate product = string_or_undefined (get_prop product (ascii ''name''))"

definition description_candidate :: "json \<Rightarrow> jstring option" where
  "description_candidate product = string_or_undefined (get_prop product (ascii ''description''))"

definition brand_value :: "json \<Rightarrow> json option" where
  "brand_value product =
     js_or truthy (opt_prop (get_prop product (ascii ''brand'')) (ascii ''name''))
       (get_prop product (ascii ''manufacturer''))"

definition price_candidate :: "json \<Rightarrow> number option" where
  "price_candidate offer =
     (case get_prop offer (ascii ''price'') of
        None \<Rightarrow> None
      | Some v \<Rightarrow> if truthy_json v then Some (parseFloat_of v) else None)"

definition image_candidate :: "json option \<Rightarrow> json option" where
  "image_candidate img =
     (case img of Some (JStr s) \<Rightarrow> Some (JStr s) | _ \<Rightarrow> opt_prop img (ascii ''url''))"

text \<open>A property of the block when it is truthy (\<open>if (product.offers)\<close>, \<open>if (product.image)\<close>).\<close>

definition truthy_prop :: "json \<Rightarrow> jstring \<Rightarrow> json option" where
  "truthy_prop product k =
     (case get_prop product k of None \<Rightarrow> None | Some v \<Rightarrow> if truthy_json v then Some v else None)"

definition offers_step :: "json \<Rightarrow> ProductData \<Rightarrow> thrown + ProductData" where
  "offers_step product productData =
     (case truthy_prop product (ascii ''offers'') of
        None \<Rightarrow> Inr productData
      | Some offers \<Rightarrow>
          (case first_of offers of
             None \<Rightarrow> Inl (cannot_read ''undefined'' ''price'')
           | Some JNull \<Rightarrow> Inl (cannot_read ''null'' ''price'')
           | Some offer \<Rightarrow>
               Inr (productData
                 \<lparr>price := js_or truthy_number (price productData) (price_candidate offer),
                  currency := js_or truthy (currency productData)
                                (get_prop offer (ascii ''priceCurrency''))\<rparr>)))"

definition image_step :: "json \<Rightarrow> ProductData \<Rightarrow> ProductData" where
  "image_step product productData =
     (case truthy_prop product (ascii ''image'') of
        None \<Rightarrow> productData
      | Some images \<Rightarrow>
          productData\<lparr>imageUrl := js_or truthy (imageUrl productData)
                                     (image_candidate (first_of images))\<rparr>)"

text \<open>One round of the loop over the JSON-LD blocks.\<close>

definition backfill_block :: "json \<Rightarrow> ProductData \<Rightarrow> thrown + ProductData" where
  "backfill_block data productData =
     (if data = JNull then Inl (cannot_read ''null'' ''@type'')
      else if \<not> is_product data then Inr productData
      else
        (case offers_step data
                (productData
                  \<lparr>name := js_or truthy_str (name productData) (name_candidate data),
                   brand := brand_value data,
                   description := js_or truthy_str (description productData)
                                    (description_candidate data)\<rparr>) of
           Inl e \<Rightarrow> Inl e
         | Inr filled \<Rightarrow> Inr (image_step data filled)))"

fun jsonld_backfill :: "json list \<Rightarrow> ProductData \<Rightarrow> thrown + ProductData" where
  "jsonld_backfill [] productData = Inr productData"
| "jsonld_backfill (data # rest) productData =
     (case backfill_block data productData of
        Inl e \<Rightarrow> Inl e
      | Inr filled \<Rightarrow> jsonld_backfill rest filled)"

text \<open>The record built from the extractors, before the JSON-LD blocks are read.\<close>

definition initial_product ::
  "(jstring \<rightharpoonup> jstring) \<Rightarrow> jstring list \<Rightarrow> jstring list \<Rightarrow> (number \<times> jstring) option \<Rightarrow>
   ProductData" where
  "initial_product metaTags images found_sizes priceData =
     \<lparr>name = js_or truthy_str (metaTags (ascii ''og:title'')) (metaTags (ascii ''twitter:title'')),
      brand = None,
      price = map_option fst priceData,
      currency = map_option (\<lambda>p. JStr (snd p)) priceData,
      imageUrl = js_or truthy (map_option JStr (metaTags (ascii ''og:image'')))
                   (case images of [] \<Rightarrow> None | x # _ \<Rightarrow> Some (JStr x)),
      sizes = (if 0 < length found_sizes then Some found_sizes else None),
      description = js_or truthy_str (metaTags (ascii ''og:description''))
                      (metaTags (ascii ''description'')),
      category = None\<rparr>"

text \<open>
  The brand from the host name of the URL, when no block gave one. The host name is
  read by the runtime (\<open>new URL(url).hostname\<close>), which throws on an invalid URL.
\<close>

definition infer_brand ::
  "(jstring \<Rightarrow> thrown + jstring) \<Rightarrow> jstring \<Rightarrow> ProductData \<Rightarrow> thrown + ProductData" where
  "infer_brand hostname url productData =
     (if \<not> truthy (brand productData) then
        (case hostname url of
           Inl e \<Rightarrow> Inl e
         | Inr host \<Rightarrow>
             let urlParts = split_on 46 host in
             Inr (productData\<lparr>brand := (if 2 \<le> length urlParts
                                         then Some (JStr (urlParts ! (length urlParts - 2)))
                                         else None)\<rparr>))
      else Inr productData)"

definition categoryPatterns :: "(string \<times> regex) list" where
  "categoryPatterns =
     [(''shirt'', alts (lit_i ''shirt'') [lit_i ''blouse'', lit_i ''top'']),
      (''pants'', alts (lit_i ''pants'') [lit_i ''trousers'', lit_i ''jeans'', lit_i ''bottoms'']),
      (''dress'', alts (lit_i ''dress'') [lit_i ''gown'']),
      (''shoes'', alts (lit_i ''shoes'') [lit_i ''sneakers'', lit_i ''boots'', lit_i ''footwear'']),
      (''jacket'', alts (lit_i ''jacket'') [lit_i ''coat'', lit_i ''blazer'', lit_i ''outerwear''])]"

fun detect_category ::
  "(string \<times> regex) list \<Rightarrow> jstring \<Rightarrow> jstring \<Rightarrow> ProductData \<Rightarrow> ProductData" where
  "detect_category [] url html productData = productData"
| "detect_category (entry # entries) url html productData =
     (if test (snd entry) url \<or> test (snd entry) html
      then productData\<lparr>category := Some (ascii (fst entry))\<rparr>
      else detect_category entries url html productData)"

text \<open>The functions of the runtime that \<open>scrapeProductPage\<close> calls.\<close>

record host =
  JSON_parse :: "jstring \<Rightarrow> json option"
  URL_resolve :: "jstring \<Rightarrow> jstring \<Rightarrow> thrown + jstring"
  URL_hostname :: "jstring \<Rightarrow> thrown + jstring"
  toUpperCase :: "jstring \<Rightarrow> jstring"

definition scrapeProductPage_try ::
  "host \<Rightarrow> jstring \<Rightarrow> thrown + jstring \<Rightarrow> (thrown + ProductData) option" where
  "scrapeProductPage_try h url fetched =
     (case fetched of
        Inl e \<Rightarrow> Some (Inl e)
      | Inr html \<Rightarrow> do {
          metaTags \<leftarrow> extractMetaTags html;
          jsonLd \<leftarrow> extractJsonLd (JSON_parse h) html;
          extracted \<leftarrow> extractImages (URL_resolve h) html url;
          found_sizes \<leftarrow> extractSizes (toUpperCase h) html;
          Some (case extracted of
                  Inl e \<Rightarrow> Inl e
                | Inr images \<Rightarrow>
                    (case jsonld_backfill jsonLd
                            (initial_product metaTags images found_sizes (extractPrice html)) of
                       Inl e \<Rightarrow> Inl e
                     | Inr filled \<Rightarrow>
                         (case infer_brand (URL_hostname h) url filled of
                            Inl e \<Rightarrow> Inl e
                          | Inr branded \<Rightarrow>
                              Inr (detect_category categoryPatterns url html branded))))
        })"

definition scrapeProductPage ::
  "host \<Rightarrow> jstring \<Rightarrow> thrown + jstring \<Rightarrow> (thrown + ProductData) option" where
  "scrapeProductPage h url fetched =
     map_option
       (\<lambda>outcome. case outcome of
          Inl e \<Rightarrow>
            Inl (JsError (ascii ''Failed to scrape product page: '' @
                   (case e of JsError message \<Rightarrow> message | NonError \<Rightarrow> ascii ''Unknown error'')))
        | Inr productData \<Rightarrow> Inr productData)
       (scrapeProductPage_try h url fetched)"


section \<open>Notions used in the statements\<close>

text \<open>The least number of code units that a match of a pattern consumes.\<close>

fun min_len :: "regex \<Rightarrow> nat" where
  "min_len (Class n rs) = 1"
| "min_len (Seq a b) = min_len a + min_len b"
| "min_len (Alt a b) = min (min_len a) (min_len b)"
| "min_len (Group i r) = min_len r"
| "min_len r = 0"

text \<open>A pattern without a capture group.\<close>

fun no_groups :: "regex \<Rightarrow> bool" where
  "no_groups (Group i r) = False"
| "no_groups (Seq a b) = (no_groups a \<and> no_groups b)"
| "no_groups (Alt a b) = (no_groups a \<and> no_groups b)"
| "no_groups (Star g r) = no_groups r"
| "no_groups r = True"

text \<open>A pattern all of whose character classes lie within \<open>P\<close>.\<close>

fun class_only :: "(jchar \<Rightarrow> bool) \<Rightarrow> regex \<Rightarrow> bool" where
  "class_only P (Class n rs) = (\<forall>x. in_class n rs x \<longrightarrow> P x)"
| "class_only P (Seq a b) = (class_only P a \<and> class_only P b)"
| "class_only P (Alt a b) = (class_only P a \<and> class_only P b)"
| "class_only P (Star g r) = class_only P r"
| "class_only P (Group i r) = class_only P r"
| "class_only P r = True"


text \<open>The content that \<open>extractMetaTags\<close> stores under a key.\<close>

definition tag_of :: "jstring \<Rightarrow> jstring \<Rightarrow> jstring option" where
  "tag_of html k = Option.bind (extractMetaTags html) (\<lambda>metaTags. metaTags k)"








section \<open>Example inputs\<close>

definition two_blocks :: jstring where
  \<open>two_blocks = ascii (''<script type="application/ld+json">{"a":"<b>"}</script>'' @
     ''<script type="application/ld+json">{"a":1}</script>'')\<close>


definition icon_page :: jstring where
  \<open>icon_page = ascii ''<img src="http://a/logo.png"><img data-src="http://a/icon.png">''\<close>

text \<open>\<open>toLowerCase\<close> on ASCII text.\<close>

definition lower_ascii :: "jstring \<Rightarrow> jstring" where
  "lower_ascii s = map (\<lambda>c. if 65 \<le> c \<and> c \<le> 90 then c + 32 else c) s"

definition plain_table :: jstring where
  "plain_table = ascii ''<tr><td>S</td><td>1</td></tr>''"

definition chest_table :: jstring where
  "chest_table = ascii ''<th>Size</th><th>Chest</th><tr><td>L</td><td>40</td></tr>''"

definition plain_then_chest :: jstring where
  "plain_then_chest = ascii ''<table>'' @ plain_table @ ascii ''</table><table>'' @ chest_table @
     ascii ''</table>''"

definition waist_table :: jstring where
  "waist_table = ascii ''<th>Size</th><th>Waist</th><tr><td>M</td><td>32</td></tr>''"

definition waist_then_chest :: jstring where
  "waist_then_chest = ascii ''<table>'' @ waist_table @ ascii ''</table><table>'' @ chest_table @
     ascii ''</table>''"




text \<open>
  A page whose one JSON-LD block is the text \<open>null\<close>, and a runtime for it: its
  \<open>JSON.parse\<close> reads that text and throws on any other, and its \<open>URL\<close> never throws.
\<close>

definition null_page :: jstring where
  \<open>null_page = ascii ''<script type="application/ld+json">null</script>''\<close>

definition null_host :: host where
  "null_host = \<lparr>JSON_parse = (\<lambda>s. if s = ascii ''null'' then Some JNull else None),
     URL_resolve = (\<lambda>url base. Inr url),
     URL_hostname = (\<lambda>url. Inr (ascii ''shop.example'')),
     toUpperCase = (\<lambda>s. s)\<rparr>"

section \<open>Properties of the fit scorer\<close>

text \<open>Running \<open>binade\<close> on given numbers.\<close>

lemma binade_numeral:
  "binade (numeral k) x e =
     (if 2 \<le> x then binade (pred_numeral k) (x / 2) (e + 1)
      else if x < 1 then binade (pred_numeral k) (x * 2) (e - 1)
      else e)"
  by (simp add: numeral_eq_Suc)

lemmas ieee = to_double_def ulp_of_def round_even_def binade_numeral Let_def inf_of_def


lemma compare_entry_warnings:
  "acc_warnings (compare_entry fmt item e acc) =
     acc_warnings acc @ acc_warnings (compare_entry fmt item e fit_start)"
  by (simp add: compare_entry_def fit_start_def Let_def split: option.splits)

lemma fold_compare_warnings:
  "acc_warnings (fold (compare_entry fmt item) es acc) =
     acc_warnings acc @
     concat (map (\<lambda>e. acc_warnings (compare_entry fmt item e fit_start)) es)"
proof (induction es arbitrary: acc)
  case Nil
  then show ?case by simp
next
  case (Cons e es)
  show ?case
    by (simp add: Cons.IH compare_entry_warnings [of fmt item e acc])
qed

lemma warnings_checkFit:
  "warnings (checkFitCompatibility fmt user item) =
     concat (map (\<lambda>e. acc_warnings (compare_entry fmt item e fit_start)) user)"
  by (simp add: checkFitCompatibility_def fit_verdict_def Let_def fold_compare_warnings
      fit_start_def)

lemma tight_iff: "0 < u \<Longrightarrow> ((i - u) / u * 100 < - 5) = (i < u * 0.95)" for u :: real
  by (simp add: field_simps)

lemma loose_iff: "0 < u \<Longrightarrow> (10 < (i - u) / u * 100) = (i > u * 1.10)" for u :: real
  by (simp add: field_simps)

text \<open>
  C1 (as amended). Take an entry of the user's measurements with a strictly positive
  value, whose key is a property of the item with a value other than zero, and let \<open>percentDiff\<close> be \<open>((itemValue - userValue) / userValue) * 100\<close> as the program
  computes it, each operation rounded to a double. The warnings of the result are the
  warnings of the entries before it, then what this entry adds, then the warnings of the
  entries after it; and this entry adds the "tight" warning of its key when
  \<open>percentDiff < -5\<close>, the "loose" warning of its key when \<open>percentDiff > 10\<close>, and nothing
  otherwise. Where \<open>percentDiff\<close> comes out as the exact quotient, these two tests are
  \<open>itemValue < userValue * 0.95\<close> and \<open>itemValue > userValue * 1.10\<close>.
\<close>

theorem fit_warning_thresholds:
  assumes "user = before @ (key, userValue) # after"
    and "item key = Some itemValue"
    and "num_lt (Num 0) userValue"
    and "itemValue \<noteq> Num 0"
  shows "warnings (checkFitCompatibility fmt user item) =
           warnings (checkFitCompatibility fmt before item) @
           (if num_lt (percent_diff itemValue userValue) (Num (- 5))
            then [tight_warning fmt key (percent_diff itemValue userValue)]
            else if num_lt (Num 10) (percent_diff itemValue userValue)
            then [loose_warning fmt key (percent_diff itemValue userValue)]
            else []) @
           warnings (checkFitCompatibility fmt after item) \<and>
         (\<forall>u i. userValue = Num u \<and> itemValue = Num i \<and>
                percent_diff itemValue userValue = Num ((i - u) / u * 100) \<longrightarrow>
                num_lt (percent_diff itemValue userValue) (Num (- 5)) = (i < u * 0.95) \<and>
                num_lt (Num 10) (percent_diff itemValue userValue) = (i > u * 1.10))"
proof
  have one: "acc_warnings (compare_entry fmt item (key, userValue) fit_start) =
      (if num_lt (percent_diff itemValue userValue) (Num (- 5))
       then [tight_warning fmt key (percent_diff itemValue userValue)]
       else if num_lt (Num 10) (percent_diff itemValue userValue)
       then [loose_warning fmt key (percent_diff itemValue userValue)]
       else [])"
  proof (cases "truthy_num itemValue")
    case True
    with assms(2) show ?thesis
      by (simp add: compare_entry_def read_property_def Let_def fit_start_def)
  next
    case False
    with assms(4) have nan: "itemValue = NaN"
      by (cases itemValue) simp_all
    with assms(2) show ?thesis
      by (simp add: compare_entry_def read_property_def fit_start_def percent_diff_def
          num_sub_def)
  qed
  show "warnings (checkFitCompatibility fmt user item) =
           warnings (checkFitCompatibility fmt before item) @
           (if num_lt (percent_diff itemValue userValue) (Num (- 5))
            then [tight_warning fmt key (percent_diff itemValue userValue)]
            else if num_lt (Num 10) (percent_diff itemValue userValue)
            then [loose_warning fmt key (percent_diff itemValue userValue)]
            else []) @
           warnings (checkFitCompatibility fmt after item)"
    by (simp add: warnings_checkFit assms(1) one)
next
  show "\<forall>u i. userValue = Num u \<and> itemValue = Num i \<and>
                percent_diff itemValue userValue = Num ((i - u) / u * 100) \<longrightarrow>
                num_lt (percent_diff itemValue userValue) (Num (- 5)) = (i < u * 0.95) \<and>
                num_lt (Num 10) (percent_diff itemValue userValue) = (i > u * 1.10)"
  proof (intro allI impI)
    fix u i
    assume a: "userValue = Num u \<and> itemValue = Num i \<and>
                percent_diff itemValue userValue = Num ((i - u) / u * 100)"
    with assms(3) have u: "0 < u" by simp
    from a have pd: "percent_diff itemValue userValue = Num ((i - u) / u * 100)" by blast
    show "num_lt (percent_diff itemValue userValue) (Num (- 5)) = (i < u * 0.95) \<and>
          num_lt (Num 10) (percent_diff itemValue userValue) = (i > u * 1.10)"
      unfolding pd using tight_iff [OF u, of i] loose_iff [OF u, of i] by simp
  qed
qed

text \<open>
  The example of the specification, \<open>checkFitCompatibility({chest: 100}, {chest: 90})\<close>:
  \<open>percentDiff\<close> is -10, the item is below 95, and the one warning is the "tight" warning
  of the key.
\<close>

lemma percent_diff_90_100: "percent_diff (Num 90) (Num 100) = Num (- 10)"
  by (simp add: percent_diff_def num_sub_def ieee)

theorem fit_warning_thresholds_witness:
  "warnings (checkFitCompatibility toFixed0 [(ascii ''chest'', Num 100)]
      [ascii ''chest'' \<mapsto> Num 90]) =
     [ascii ''chest may be tight (10% smaller)''] \<and>
   num_lt (percent_diff (Num 90) (Num 100)) (Num (- 5)) = ((90::real) < 100 * 0.95)"
proof -
  have "warnings (checkFitCompatibility toFixed0 ([] @ (ascii ''chest'', Num 100) # [])
          [ascii ''chest'' \<mapsto> Num 90]) =
        warnings (checkFitCompatibility toFixed0 [] [ascii ''chest'' \<mapsto> Num 90]) @
        (if num_lt (percent_diff (Num 90) (Num 100)) (Num (- 5))
         then [tight_warning toFixed0 (ascii ''chest'') (percent_diff (Num 90) (Num 100))]
         else if num_lt (Num 10) (percent_diff (Num 90) (Num 100))
         then [loose_warning toFixed0 (ascii ''chest'') (percent_diff (Num 90) (Num 100))]
         else []) @
        warnings (checkFitCompatibility toFixed0 [] [ascii ''chest'' \<mapsto> Num 90]) \<and>
        (\<forall>u i. Num 100 = Num u \<and> Num 90 = Num i \<and>
                percent_diff (Num 90) (Num 100) = Num ((i - u) / u * 100) \<longrightarrow>
                num_lt (percent_diff (Num 90) (Num 100)) (Num (- 5)) = (i < u * 0.95) \<and>
                num_lt (Num 10) (percent_diff (Num 90) (Num 100)) = (i > u * 1.10))"
    by (rule fit_warning_thresholds) simp_all
  then show ?thesis
    by (simp add: percent_diff_90_100 warnings_checkFit tight_warning_def ascii_def)
qed

text \<open>
  C1 as stated fails in three places. Where the item's value is zero: the key is in
  both mappings, the user's value 100 is positive and 0 is below 95, but the guard
  \<open>if (itemValue)\<close> takes a zero for a missing value and no warning is added. At the
  doubles written \<open>14.9\<close> and \<open>16.39\<close>: the item is above the user's value times 1.10, but
  the program's \<open>percentDiff\<close> is exactly 10 and no warning is added. And at the doubles
  \<open>1\<close> and \<open>1.1\<close>: when \<open>userValue * 1.10\<close> is itself a product of doubles, it is the double
  \<open>1.1\<close>, so that the item is neither above it nor below \<open>userValue * 0.95\<close>, but the
  program's \<open>percentDiff\<close> is above 10 and the "loose" warning is added.
\<close>

lemma single_entry_warnings:
  "truthy_num i \<Longrightarrow> percent_diff i u = d \<Longrightarrow>
   warnings (checkFitCompatibility fmt [(k, u)] [k \<mapsto> i]) =
     (if num_lt d (Num (- 5)) then [tight_warning fmt k d]
      else if num_lt (Num 10) d then [loose_warning fmt k d]
      else [])"
  by (simp add: warnings_checkFit compare_entry_def read_property_def fit_start_def Let_def)

lemma values_149_1639:
  "to_double 14.9 = Num (8387954305977549 / 2 ^ 49)"
  "to_double 16.39 = Num (1153343717071913 / 2 ^ 46)"
  by (simp_all add: ieee)

lemma percent_diff_1639_149:
  "percent_diff (to_double 16.39) (to_double 14.9) = Num 10"
  by (simp add: values_149_1639 percent_diff_def num_sub_def ieee)

lemma values_11:
  "to_double 1.1 = Num (2476979795053773 / 2 ^ 51)"
  "to_double 1.10 = Num (2476979795053773 / 2 ^ 51)"
  "to_double 0.95 = Num (4278419646001971 / 2 ^ 52)"
  by (simp_all add: ieee)

lemma percent_diff_11_1:
  "percent_diff (to_double 1.1) (Num 1) = Num (5629499534213125 / 2 ^ 49)"
  by (simp add: values_11 percent_diff_def num_sub_def ieee)

theorem fit_thresholds_counterexample:
  "[ascii ''chest'' \<mapsto> Num 0] (ascii ''chest'') = Some (Num 0) \<and>
   num_lt (Num 0) (Num 100) \<and> num_lt (Num 0) (num_mul (Num 100) (to_double 0.95)) \<and>
   warnings (checkFitCompatibility toFixed0 [(ascii ''chest'', Num 100)]
      [ascii ''chest'' \<mapsto> Num 0]) = [] \<and>
   to_double 14.9 = Num (8387954305977549 / 2 ^ 49) \<and>
   to_double 16.39 = Num (1153343717071913 / 2 ^ 46) \<and>
   (8387954305977549 / 2 ^ 49 :: real) * 1.10 < 1153343717071913 / 2 ^ 46 \<and>
   warnings (checkFitCompatibility toFixed0 [(ascii ''chest'', to_double 14.9)]
      [ascii ''chest'' \<mapsto> to_double 16.39]) = [] \<and>
   \<not> num_lt (num_mul (Num 1) (to_double 1.10)) (to_double 1.1) \<and>
   \<not> num_lt (to_double 1.1) (num_mul (Num 1) (to_double 0.95)) \<and>
   warnings (checkFitCompatibility toFixed0 [(ascii ''chest'', Num 1)]
      [ascii ''chest'' \<mapsto> to_double 1.1]) = [ascii ''chest may be loose (10% larger)'']"
proof (intro conjI)
  show "[ascii ''chest'' \<mapsto> Num 0] (ascii ''chest'') = Some (Num 0)"
    by simp
  show "num_lt (Num 0) (Num 100)"
    by simp
  show "num_lt (Num 0) (num_mul (Num 100) (to_double 0.95))"
    by (simp add: ieee)
  show "warnings (checkFitCompatibility toFixed0 [(ascii ''chest'', Num 100)]
      [ascii ''chest'' \<mapsto> Num 0]) = []"
    by (simp add: warnings_checkFit compare_entry_def read_property_def fit_start_def)
  show "to_double 14.9 = Num (8387954305977549 / 2 ^ 49)"
    by (simp add: ieee)
  show "to_double 16.39 = Num (1153343717071913 / 2 ^ 46)"
    by (simp add: ieee)
  show "(8387954305977549 / 2 ^ 49 :: real) * 1.10 < 1153343717071913 / 2 ^ 46"
    by simp
  have "truthy_num (to_double 16.39)"
    by (simp add: ieee)
  from single_entry_warnings [OF this percent_diff_1639_149]
  show "warnings (checkFitCompatibility toFixed0 [(ascii ''chest'', to_double 14.9)]
      [ascii ''chest'' \<mapsto> to_double 16.39]) = []"
    by simp
  show "\<not> num_lt (num_mul (Num 1) (to_double 1.10)) (to_double 1.1)"
    by (simp add: ieee)
  show "\<not> num_lt (to_double 1.1) (num_mul (Num 1) (to_double 0.95))"
    by (simp add: ieee)
  have "truthy_num (to_double 1.1)"
    by (simp add: ieee)
  from single_entry_warnings [OF this percent_diff_11_1, of toFixed0 "ascii ''chest''"]
  show "warnings (checkFitCompatibility toFixed0 [(ascii ''chest'', Num 1)]
      [ascii ''chest'' \<mapsto> to_double 1.1]) = [ascii ''chest may be loose (10% larger)'']"
    by (simp add: loose_warning_def ascii_def)
qed

text \<open>
  C2. \<open>fits\<close> is true exactly when the score is above 70 and there is no warning; so it is
  never true when a warning was emitted.
\<close>

theorem fits_iff_score_and_no_warning:
  "fits (checkFitCompatibility fmt user item) =
     (num_lt (Num 70) (score (checkFitCompatibility fmt user item)) \<and>
      warnings (checkFitCompatibility fmt user item) = [])"
  by (simp add: checkFitCompatibility_def fit_verdict_def Let_def)







section \<open>Properties of the matcher\<close>

text \<open>A match leaves a suffix of the input.\<close>

lemma matches_suffix:
  "st' \<in> set (matches r st) \<Longrightarrow> \<exists>w. fst (snd st) = w @ fst (snd st')"
proof (induction r st arbitrary: st' rule: matches.induct)
  case (1 n rs p s c)
  then show ?case by (auto split: list.splits if_splits)
next
  case (2 st)
  then show ?case by simp
next
  case (3 a b st)
  from "3.prems" obtain mid where m: "mid \<in> set (matches a st)" "st' \<in> set (matches b mid)"
    by auto
  from "3.IH"(1) [OF m(1)] obtain w1 where "fst (snd st) = w1 @ fst (snd mid)" by blast
  moreover from "3.IH"(2) [OF m(1) m(2)] obtain w2 where "fst (snd mid) = w2 @ fst (snd st')" by blast
  ultimately show ?case by simp
next
  case (4 a b st)
  from "4.prems" have "st' \<in> set (matches a st) \<or> st' \<in> set (matches b st)" by simp
  then show ?case using "4.IH" by blast
next
  case (5 greedy r p s c)
  from "5.prems" consider "st' = (p, s, c)"
    | mid where "mid \<in> set (matches r (p, s, c))" "length (fst (snd mid)) < length s"
        "st' \<in> set (matches (Star greedy r) mid)"
    by (auto simp: Let_def split: if_splits)
  then show ?case
  proof cases
    case 1
    then show ?thesis by simp
  next
    case 2
    from "5.IH"(1) [OF 2(1)] obtain w1 where "s = w1 @ fst (snd mid)" by auto
    moreover from "5.IH"(2) [OF 2(1) 2(2) 2(3)] obtain w2 where "fst (snd mid) = w2 @ fst (snd st')"
      by blast
    ultimately show ?thesis by simp
  qed
next
  case (6 i r p s c)
  then show ?case by auto
next
  case (7 p s c)
  then show ?case by (auto split: if_splits)
next
  case (8 p s c)
  then show ?case by (auto split: if_splits)
next
  case (9 p s c)
  then show ?case by (auto split: if_splits)
qed

lemma matches_min_len:
  "st' \<in> set (matches r st) \<Longrightarrow> length (fst (snd st')) + min_len r \<le> length (fst (snd st))"
proof (induction r st arbitrary: st' rule: matches.induct)
  case (1 n rs p s c)
  then show ?case by (auto split: list.splits if_splits)
next
  case (3 a b st)
  from "3.prems" obtain mid where m: "mid \<in> set (matches a st)" "st' \<in> set (matches b mid)"
    by auto
  from "3.IH"(1) [OF m(1)] "3.IH"(2) [OF m(1) m(2)] show ?case by simp
next
  case (4 a b st)
  from "4.prems" have "st' \<in> set (matches a st) \<or> st' \<in> set (matches b st)" by simp
  then show ?case using "4.IH" by fastforce
next
  case (5 greedy r p s c)
  from matches_suffix [OF "5.prems"] show ?case by auto
next
  case (6 i r p s c)
  then show ?case by auto
qed (auto split: if_splits)

lemma search_Some:
  "search r p s = Some (start, st') \<Longrightarrow>
     \<exists>pre p0. s = pre @ start \<and> st' \<in> set (matches r (p0, start, []))"
proof (induction s arbitrary: p)
  case Nil
  then have "start = []" "st' \<in> set (matches r (p, [], []))"
    by (auto split: list.splits)
  then have "[] = [] @ start \<and> st' \<in> set (matches r (p, start, []))" by simp
  then show ?case by blast
next
  case (Cons x t)
  show ?case
  proof (cases "matches r (p, x # t, [])")
    case Nil
    with Cons.prems have "search r (Some x) t = Some (start, st')" by simp
    from Cons.IH [OF this] obtain pre p0 where "t = pre @ start" "st' \<in> set (matches r (p0, start, []))"
      by blast
    then have "x # t = (x # pre) @ start" by simp
    with \<open>st' \<in> set (matches r (p0, start, []))\<close> show ?thesis by blast
  next
    case (Cons m ms)
    with Cons.prems have "start = x # t" "st' = m" by simp_all
    with Cons have "x # t = [] @ start \<and> st' \<in> set (matches r (p, start, []))" by simp
    then show ?thesis by blast
  qed
qed

lemma search_None:
  "search r p s = None \<Longrightarrow> matches r (p, s, []) = []"
  by (cases s) (auto split: list.splits)

text \<open>
  The loop over the matches of a pattern ends when the pattern cannot match the empty
  string; each of its elements is a match of the pattern somewhere in the input.
\<close>

lemma exec_all_total:
  "0 < min_len r \<Longrightarrow> \<exists>ms. exec_all r p s = Some ms"
proof (induction r p s rule: exec_all.induct)
  case (1 r p s)
  show ?case
  proof (cases "search r p s")
    case None
    then show ?thesis by (simp add: exec_all.simps [of r p s])
  next
    case (Some found)
    obtain start p' s' caps where f: "found = (start, p', s', caps)" by (cases found) auto
    from search_Some [OF Some [unfolded f]] obtain p0 where
      "(p', s', caps) \<in> set (matches r (p0, start, []))" by blast
    from matches_min_len [OF this] "1.prems" have lt: "length s' < length start" by simp
    from "1.IH" [OF Some [unfolded f] refl refl refl lt "1.prems"] obtain ms where
      "exec_all r p' s' = Some ms" by blast
    with Some f lt show ?thesis by (simp add: exec_all.simps [of r p s])
  qed
qed

lemma exec_all_member:
  "exec_all r p s = Some ms \<Longrightarrow> caps \<in> set ms \<Longrightarrow>
     \<exists>p0 s0 p' s'. (p', s', caps) \<in> set (matches r (p0, s0, []))"
proof (induction r p s arbitrary: ms rule: exec_all.induct)
  case (1 r p s)
  show ?case
  proof (cases "search r p s")
    case None
    with "1.prems" show ?thesis by (simp add: exec_all.simps [of r p s])
  next
    case (Some found)
    obtain start p' s' c where f: "found = (start, p', s', c)" by (cases found) auto
    from "1.prems"(1) Some f have lt: "length s' < length start"
      by (simp add: exec_all.simps [of r p s] split: if_splits)
    from "1.prems"(1) Some f lt obtain ms' where ms': "exec_all r p' s' = Some ms'" "ms = c # ms'"
      by (auto simp: exec_all.simps [of r p s])
    show ?thesis
    proof (cases "caps = c")
      case True
      from search_Some [OF Some [unfolded f]] True show ?thesis by blast
    next
      case False
      with "1.prems"(2) ms' have "caps \<in> set ms'" by simp
      from "1.IH" [OF Some [unfolded f] refl refl refl lt ms'(1) this] show ?thesis .
    qed
  qed
qed

lemma matches_no_groups:
  "st' \<in> set (matches r st) \<Longrightarrow> no_groups r \<Longrightarrow> snd (snd st') = snd (snd st)"
proof (induction r st arbitrary: st' rule: matches.induct)
  case (1 n rs p s c)
  then show ?case by (auto split: list.splits if_splits)
next
  case (3 a b st)
  from "3.prems" obtain mid where m: "mid \<in> set (matches a st)" "st' \<in> set (matches b mid)"
    by auto
  from "3.IH"(1) [OF m(1)] "3.IH"(2) [OF m(1) m(2)] "3.prems"(2) show ?case by simp
next
  case (4 a b st)
  from "4.prems" have "st' \<in> set (matches a st) \<or> st' \<in> set (matches b st)" by simp
  then show ?case using "4.IH" "4.prems"(2) by fastforce
next
  case (5 greedy r p s c)
  from "5.prems"(1) consider "st' = (p, s, c)"
    | mid where "mid \<in> set (matches r (p, s, c))" "length (fst (snd mid)) < length s"
        "st' \<in> set (matches (Star greedy r) mid)"
    by (auto simp: Let_def split: if_splits)
  then show ?case
  proof cases
    case 1
    then show ?thesis by simp
  next
    case 2
    from "5.IH"(1) [OF 2(1)] "5.IH"(2) [OF 2(1) 2(2) 2(3)] "5.prems"(2) show ?thesis by simp
  qed
qed (auto split: if_splits)

lemma matches_class_only:
  "st' \<in> set (matches r st) \<Longrightarrow> class_only P r \<Longrightarrow>
     \<exists>w. fst (snd st) = w @ fst (snd st') \<and> (\<forall>x\<in>set w. P x)"
proof (induction r st arbitrary: st' rule: matches.induct)
  case (1 n rs p s c)
  then show ?case by (auto split: list.splits if_splits)
next
  case (2 st)
  then show ?case by simp
next
  case (3 a b st)
  from "3.prems" obtain mid where m: "mid \<in> set (matches a st)" "st' \<in> set (matches b mid)"
    by auto
  from "3.IH"(1) [OF m(1)] "3.prems"(2) obtain w1 where
    w1: "fst (snd st) = w1 @ fst (snd mid)" "\<forall>x\<in>set w1. P x" by auto
  from "3.IH"(2) [OF m(1) m(2)] "3.prems"(2) obtain w2 where
    w2: "fst (snd mid) = w2 @ fst (snd st')" "\<forall>x\<in>set w2. P x" by auto
  from w1 w2 have "fst (snd st) = (w1 @ w2) @ fst (snd st') \<and> (\<forall>x\<in>set (w1 @ w2). P x)"
    by auto
  then show ?case by blast
next
  case (4 a b st)
  from "4.prems"(1) consider "st' \<in> set (matches a st)" | "st' \<in> set (matches b st)"
    by auto
  then show ?case
  proof cases
    case 1
    from "4.IH"(1) [OF 1] "4.prems"(2) show ?thesis by simp
  next
    case 2
    from "4.IH"(2) [OF 2] "4.prems"(2) show ?thesis by simp
  qed
next
  case (5 greedy r p s c)
  from "5.prems"(1) consider "st' = (p, s, c)"
    | mid where "mid \<in> set (matches r (p, s, c))" "length (fst (snd mid)) < length s"
        "st' \<in> set (matches (Star greedy r) mid)"
    by (auto simp: Let_def split: if_splits)
  then show ?case
  proof cases
    case 1
    then show ?thesis by simp
  next
    case 2
    from "5.IH"(1) [OF 2(1)] "5.prems"(2) obtain w1 where
      w1: "s = w1 @ fst (snd mid)" "\<forall>x\<in>set w1. P x" by auto
    from "5.IH"(2) [OF 2(1) 2(2) 2(3)] "5.prems"(2) obtain w2 where
      w2: "fst (snd mid) = w2 @ fst (snd st')" "\<forall>x\<in>set w2. P x" by auto
    from w1 w2 have "s = (w1 @ w2) @ fst (snd st') \<and> (\<forall>x\<in>set (w1 @ w2). P x)"
      by auto
    then show ?thesis by auto
  qed
next
  case (6 i r p s c)
  then show ?case by auto
qed (auto split: if_splits)

lemma matches_Group:
  assumes "st' \<in> set (matches (Group i r) (p, s, c))"
  shows "\<exists>p' s' c' w. st' = (p', s', (i, w) # c') \<and> s = w @ s' \<and>
           (p', s', c') \<in> set (matches r (p, s, c))"
proof -
  from assms obtain mid where mid: "mid \<in> set (matches r (p, s, c))"
    and st': "st' = (fst mid, fst (snd mid),
        (i, take (length s - length (fst (snd mid))) s) # snd (snd mid))"
    by auto
  from matches_suffix [OF mid] obtain w where w: "s = w @ fst (snd mid)" by auto
  then have "take (length s - length (fst (snd mid))) s = w" by simp
  with st' w mid show ?thesis by (cases mid) auto
qed

lemma seqs_prefix:
  "list_all no_groups pre \<Longrightarrow> st' \<in> set (matches (seqs (pre @ rs)) (p, s, c)) \<Longrightarrow>
     \<exists>p1 s1. st' \<in> set (matches (seqs rs) (p1, s1, c))"
proof (induction pre arbitrary: p s)
  case Nil
  then show ?case by auto
next
  case (Cons a pre)
  from Cons.prems(2) obtain mid where mid: "mid \<in> set (matches a (p, s, c))"
    "st' \<in> set (matches (seqs (pre @ rs)) mid)"
    by (auto simp: seqs_def)
  from matches_no_groups [OF mid(1)] Cons.prems(1) have "snd (snd mid) = c" by simp
  then obtain p1 s1 where "mid = (p1, s1, c)" by (cases mid) auto
  with Cons.IH [of p1 s1] Cons.prems(1) mid(2) show ?case by simp
qed

lemma seqs_group_capture:
  assumes "list_all no_groups pre" and "no_groups g" and "list_all no_groups post"
    and "(p', s', caps) \<in> set (matches (seqs (pre @ Group i g # post)) (p, s, []))"
  shows "\<exists>p1 p2 s2 w. caps = [(i, w)] \<and> (p2, s2, []) \<in> set (matches g (p1, w @ s2, []))"
proof -
  from seqs_prefix [OF assms(1) assms(4)] obtain p1 s1 where
    "(p', s', caps) \<in> set (matches (seqs (Group i g # post)) (p1, s1, []))" by blast
  then obtain mid where mid: "mid \<in> set (matches (Group i g) (p1, s1, []))"
    "(p', s', caps) \<in> set (matches (seqs post) mid)"
    by (auto simp: seqs_def)
  from matches_Group [OF mid(1)] obtain p2 s2 c2 w where g: "mid = (p2, s2, (i, w) # c2)"
    "s1 = w @ s2" "(p2, s2, c2) \<in> set (matches g (p1, s1, []))" by blast
  from matches_no_groups [OF g(3) assms(2)] have "c2 = []" by simp
  have "no_groups (seqs post)"
    using assms(3) by (induction post) (simp_all add: seqs_def)
  from matches_no_groups [OF mid(2) this] g(1) \<open>c2 = []\<close> have "caps = [(i, w)]" by simp
  with g \<open>c2 = []\<close> show ?thesis by blast
qed

lemma no_groups_lit_i: "no_groups (lit_i s)"
  by (induction s) (simp_all add: lit_i_def chr_i_def Let_def)

lemma no_groups_lit: "no_groups (lit s)"
  by (induction s) (simp_all add: lit_def chr_def)




text \<open>The definitions to unfold when a pattern is run on a given input.\<close>

lemmas regex_build =
  seqs_def alts_def lit_def lit_i_def chr_def chr_i_def Plus_def Opt_def space_def
  space_ranges_def digit_def any_char_def quote_def not_quote_def not_gt_def not_lt_def
  in_class_def is_space_def is_word_def grp_def ascii_def test_def

section \<open>Properties of extractMetaTags\<close>

lemma fold_store:
  "fold (\<lambda>m. store (f m)) ms tags =
     tags ++ map_of (rev (filter (\<lambda>e. fst e \<noteq> ascii ''__proto__'') (map f ms)))"
proof (induction ms arbitrary: tags)
  case Nil
  then show ?case by simp
next
  case (Cons m ms)
  have "fold (\<lambda>m. store (f m)) (m # ms) tags =
      store (f m) tags ++ map_of (rev (filter (\<lambda>e. fst e \<noteq> ascii ''__proto__'') (map f ms)))"
    by (simp add: Cons.IH)
  also have "\<dots> =
      tags ++ map_of (rev (filter (\<lambda>e. fst e \<noteq> ascii ''__proto__'') (map f (m # ms))))"
    by (rule ext) (simp add: store_def assign_def map_add_def split: option.splits)
  finally show ?case .
qed

lemma min_len_ogRegex: "0 < min_len ogRegex"
  by (simp add: ogRegex_def regex_build)

lemma min_len_twitterRegex: "0 < min_len twitterRegex"
  by (simp add: twitterRegex_def regex_build)

lemma min_len_metaRegex: "0 < min_len metaRegex"
  by (simp add: metaRegex_def regex_build)

lemma extractMetaTags_eq:
  assumes "exec_all ogRegex None html = Some og"
    and "exec_all twitterRegex None html = Some tw"
    and "exec_all metaRegex None html = Some me"
  shows "extractMetaTags html =
     Some (map_of (rev (filter (\<lambda>e. fst e \<noteq> ascii ''__proto__'')
       (map og_entry og @ map twitter_entry tw @ map meta_entry me))))"
  using assms by (simp add: extractMetaTags_def fold_store)

lemma map_of_filter_key:
  "k \<noteq> p \<Longrightarrow> map_of (filter (\<lambda>e. fst e \<noteq> p) xs) k = map_of xs k"
  by (induction xs) auto

lemma og_title_not_proto: "ascii ''og:title'' \<noteq> ascii ''__proto__''"
  by (simp add: ascii_def)

lemma map_of_skip:
  "k \<notin> fst ` set xs \<Longrightarrow> map_of (xs @ ys) k = map_of ys k"
  by (induction xs) auto

lemma og_key_title: "(fst (og_entry m) = ascii ''og:title'') = (grp m 1 = ascii ''title'')"
  by (simp add: og_entry_def ascii_def)

text \<open>
  C6 (as amended). \<open>extractMetaTags\<close> returns for every HTML input, and a key other
  than \<open>__proto__\<close> (under which an assignment of a string stores nothing) is mapped to
  the content of the last entry with that key in this sequence: the matches of the
  OpenGraph pattern in document order, then those of the Twitter pattern in document
  order, then those of the generic \<open>name\<close> pattern in document order. So a later pass
  wins over an earlier one, and the document order decides within a pass only. In
  particular, when the last match of the OpenGraph pattern with the key \<open>og:title\<close> has
  the content \<open>X\<close> and no match of the generic pattern has the name \<open>og:title\<close>, the
  result maps \<open>og:title\<close> to \<open>X\<close>.
\<close>

theorem extractMetaTags_pass_order:
  "\<exists>og tw me metaTags.
     exec_all ogRegex None html = Some og \<and>
     exec_all twitterRegex None html = Some tw \<and>
     exec_all metaRegex None html = Some me \<and>
     extractMetaTags html = Some metaTags \<and>
     metaTags = map_of (rev (filter (\<lambda>e. fst e \<noteq> ascii ''__proto__'')
       (map og_entry og @ map twitter_entry tw @ map meta_entry me))) \<and>
     (\<forall>earlier m later.
        og = earlier @ m # later \<and> grp m 1 = ascii ''title'' \<and>
        (\<forall>m'\<in>set later. grp m' 1 \<noteq> ascii ''title'') \<and>
        (\<forall>m'\<in>set me. grp m' 1 \<noteq> ascii ''og:title'') \<longrightarrow>
        metaTags (ascii ''og:title'') = Some (grp m 2))"
proof -
  from exec_all_total [OF min_len_ogRegex] obtain og where
    og: "exec_all ogRegex None html = Some og" by blast
  from exec_all_total [OF min_len_twitterRegex] obtain tw where
    tw: "exec_all twitterRegex None html = Some tw" by blast
  from exec_all_total [OF min_len_metaRegex] obtain me where
    me: "exec_all metaRegex None html = Some me" by blast
  define metaTags where
    "metaTags = map_of (rev (filter (\<lambda>e. fst e \<noteq> ascii ''__proto__'')
       (map og_entry og @ map twitter_entry tw @ map meta_entry me)))"
  have particular: "metaTags (ascii ''og:title'') = Some (grp m 2)"
    if split: "og = earlier @ m # later" and title: "grp m 1 = ascii ''title''"
      and last: "\<forall>m'\<in>set later. grp m' 1 \<noteq> ascii ''title''"
      and generic: "\<forall>m'\<in>set me. grp m' 1 \<noteq> ascii ''og:title''"
    for earlier m later
  proof -
    have a: "ascii ''og:title'' \<notin> fst ` set (rev (map meta_entry me))"
      using generic by (auto simp: meta_entry_def)
    have b: "ascii ''og:title'' \<notin> fst ` set (rev (map twitter_entry tw))"
      by (auto simp: twitter_entry_def ascii_def)
    have c: "ascii ''og:title'' \<notin> fst ` set (rev (map og_entry later))"
    proof
      assume "ascii ''og:title'' \<in> fst ` set (rev (map og_entry later))"
      then obtain m' where m': "m' \<in> set later" "ascii ''og:title'' = fst (og_entry m')"
        by auto
      from m'(2) [symmetric] have "grp m' 1 = ascii ''title''" by (simp only: og_key_title)
      with last m'(1) show False by blast
    qed
    have "metaTags (ascii ''og:title'') =
        map_of (rev (map og_entry later) @ og_entry m # rev (map og_entry earlier))
          (ascii ''og:title'')"
      unfolding metaTags_def rev_filter map_of_filter_key [OF og_title_not_proto] using a b
      by (simp add: split map_of_skip del: map_of_append)
    also have "\<dots> = map_of (og_entry m # rev (map og_entry earlier)) (ascii ''og:title'')"
      using c by (rule map_of_skip)
    also have "\<dots> = Some (grp m 2)"
      using title by (simp add: og_entry_def ascii_def)
    finally show ?thesis .
  qed
  from og tw me have "extractMetaTags html = Some metaTags"
    unfolding metaTags_def by (rule extractMetaTags_eq)
  with og tw me particular show ?thesis
    unfolding metaTags_def by blast
qed

text \<open>
  The example of the specification: a page with one well-formed
  \<open><meta property="og:title" content="X">\<close> maps \<open>og:title\<close> to \<open>X\<close>.
\<close>

lemma og_title_page_matches:
  \<open>exec_all ogRegex None (ascii ''<meta property="og:title" content="X">'') =
     Some [[(2, ascii ''X''), (1, ascii ''title'')]]\<close>
  \<open>exec_all metaRegex None (ascii ''<meta property="og:title" content="X">'') = Some []\<close>
  by (simp_all add: ogRegex_def metaRegex_def regex_build exec_all.simps)

theorem extractMetaTags_pass_order_witness:
  \<open>tag_of (ascii ''<meta property="og:title" content="X">'') (ascii ''og:title'') =
     Some (ascii ''X'')\<close>
proof -
  let ?html = \<open>ascii ''<meta property="og:title" content="X">''\<close>
  let ?m = "[(2, ascii ''X''), (1, ascii ''title'')] :: captures"
  from extractMetaTags_pass_order [of ?html] obtain og tw me metaTags where
    r: "exec_all ogRegex None ?html = Some og" "exec_all metaRegex None ?html = Some me"
      "extractMetaTags ?html = Some metaTags"
      "\<forall>earlier m later.
        og = earlier @ m # later \<and> grp m 1 = ascii ''title'' \<and>
        (\<forall>m'\<in>set later. grp m' 1 \<noteq> ascii ''title'') \<and>
        (\<forall>m'\<in>set me. grp m' 1 \<noteq> ascii ''og:title'') \<longrightarrow>
        metaTags (ascii ''og:title'') = Some (grp m 2)"
    by blast
  from r(1,2) og_title_page_matches have og: "og = [] @ ?m # []" and me: "me = []"
    by simp_all
  have "grp ?m 1 = ascii ''title''" by (simp add: grp_def)
  with r(4) og me have "metaTags (ascii ''og:title'') = Some (grp ?m 2)"
    by (metis empty_iff list.set(1))
  with r(3) show ?thesis by (simp add: tag_of_def grp_def)
qed

text \<open>
  C6 as stated fails on a page where a generic tag named \<open>og:title\<close> stands before the
  OpenGraph tag: the OpenGraph tag is the last tag of the document that produces the key
  \<open>og:title\<close>, and it is well-formed with the content \<open>X\<close>, but the generic pass runs
  after the OpenGraph pass and the result maps \<open>og:title\<close> to \<open>Y\<close>. It also fails for the
  key \<open>__proto__\<close>: the one tag of the second page produces this key with the content
  \<open>x\<close>, and the result has no such entry.
\<close>

lemma generic_first_page_matches:
  \<open>exec_all ogRegex None
     (ascii ''<meta name="og:title" content="Y"><meta property="og:title" content="X">'') =
     Some [[(2, ascii ''X''), (1, ascii ''title'')]]\<close>
  \<open>exec_all twitterRegex None
     (ascii ''<meta name="og:title" content="Y"><meta property="og:title" content="X">'') =
     Some []\<close>
  \<open>exec_all metaRegex None
     (ascii ''<meta name="og:title" content="Y"><meta property="og:title" content="X">'') =
     Some [[(2, ascii ''Y''), (1, ascii ''og:title'')]]\<close>
  by (simp_all add: ogRegex_def twitterRegex_def metaRegex_def regex_build exec_all.simps)

lemma proto_page_matches:
  \<open>exec_all ogRegex None (ascii ''<meta name="__proto__" content="x">'') = Some []\<close>
  \<open>exec_all twitterRegex None (ascii ''<meta name="__proto__" content="x">'') = Some []\<close>
  \<open>exec_all metaRegex None (ascii ''<meta name="__proto__" content="x">'') =
     Some [[(2, ascii ''x''), (1, ascii ''__proto__'')]]\<close>
  by (simp_all add: ogRegex_def twitterRegex_def metaRegex_def regex_build exec_all.simps)

theorem extractMetaTags_document_order_counterexample:
  \<open>tag_of (ascii ''<meta name="og:title" content="Y"><meta property="og:title" content="X">'')
     (ascii ''og:title'') = Some (ascii ''Y'') \<and>
   ascii ''Y'' \<noteq> ascii ''X'' \<and>
   tag_of (ascii ''<meta name="__proto__" content="x">'') (ascii ''__proto__'') = None\<close>
  unfolding tag_of_def extractMetaTags_eq [OF generic_first_page_matches]
    extractMetaTags_eq [OF proto_page_matches]
  by (simp add: og_entry_def meta_entry_def regex_build)

section \<open>Properties of extractJsonLd\<close>

lemma jsonLd_capture:
  assumes "(p', s', caps) \<in> set (matches jsonLdRegex (p, s, []))"
  shows "grp caps 1 \<noteq> [] \<and> 60 \<notin> set (grp caps 1)"
proof -
  have shape: "jsonLdRegex =
      seqs ([lit_i ''<script'', Plus True space, lit_i ''type='', quote,
             lit_i ''application/ld+json'', quote, lit_i ''>''] @
            Group 1 (Plus True not_lt) # [lit_i ''</script>''])"
    by (simp add: jsonLdRegex_def)
  have pre: "list_all no_groups [lit_i ''<script'', Plus True space, lit_i ''type='', quote,
             lit_i ''application/ld+json'', quote, lit_i ''>'']"
    by (simp add: no_groups_lit_i Plus_def space_def quote_def)
  have g: "no_groups (Plus True not_lt)" by (simp add: Plus_def not_lt_def)
  have post: "list_all no_groups [lit_i ''</script>'']" by (simp add: no_groups_lit_i)
  from seqs_group_capture [OF pre g post assms [unfolded shape]] obtain p1 p2 s2 w where
    w: "caps = [(1, w)]" "(p2, s2, []) \<in> set (matches (Plus True not_lt) (p1, w @ s2, []))"
    by blast
  have "class_only (\<lambda>x. x \<noteq> 60) (Plus True not_lt)"
    by (auto simp: Plus_def not_lt_def in_class_def)
  from matches_class_only [OF w(2) this] obtain w' where "w @ s2 = w' @ s2" "\<forall>x\<in>set w'. x \<noteq> 60"
    by auto
  then have no_lt: "60 \<notin> set w" by auto
  from matches_min_len [OF w(2)] have "w \<noteq> []" by (auto simp: Plus_def not_lt_def)
  with no_lt w(1) show ?thesis by (simp add: grp_def)
qed

lemma min_len_jsonLdRegex: "0 < min_len jsonLdRegex"
  by (simp add: jsonLdRegex_def regex_build)

text \<open>
  C10. \<open>extractJsonLd\<close> returns for every HTML input; what it returns are the parsed
  bodies (the text between the opening tag and \<open></script>\<close>) of the matches of the
  pattern, in document order; and the body of every match is not empty and has no \<open><\<close>
  (code unit 60) in it. So a block with a \<open><\<close> in its body is never a match and nothing
  in the output comes from it, whatever \<open>JSON.parse\<close> would make of its body.
\<close>

theorem extractJsonLd_bodies_without_lt:
  "\<exists>ms. exec_all jsonLdRegex None html = Some ms \<and>
     extractJsonLd parse html = Some (List.map_filter (\<lambda>m. parse (grp m 1)) ms) \<and>
     (\<forall>m\<in>set ms. grp m 1 \<noteq> [] \<and> 60 \<notin> set (grp m 1))"
proof -
  from exec_all_total [OF min_len_jsonLdRegex] obtain ms where
    ms: "exec_all jsonLdRegex None html = Some ms" by blast
  have "grp m 1 \<noteq> [] \<and> 60 \<notin> set (grp m 1)" if "m \<in> set ms" for m
  proof -
    from exec_all_member [OF ms that] obtain p0 s0 p' s' where
      "(p', s', m) \<in> set (matches jsonLdRegex (p0, s0, []))" by blast
    then show ?thesis by (rule jsonLd_capture)
  qed
  with ms show ?thesis by (simp add: extractJsonLd_def)
qed

text \<open>
  A page with two blocks, both holding valid JSON: the first has a \<open><\<close> inside a JSON
  string and the second has none. With a parser that accepts every text, the one object
  returned is the second body; and that body, the body of the only match, is not empty
  and has no \<open><\<close>.
\<close>

lemma two_blocks_matches:
  \<open>exec_all jsonLdRegex None two_blocks = Some [[(1, ascii ''{"a":1}'')]]\<close>
  by (simp add: two_blocks_def jsonLdRegex_def regex_build exec_all.simps)

theorem extractJsonLd_bodies_without_lt_witness:
  \<open>extractJsonLd (\<lambda>body. Some (JStr body)) two_blocks = Some [JStr (ascii ''{"a":1}'')] \<and>
   ascii ''{"a":1}'' \<noteq> [] \<and> 60 \<notin> set (ascii ''{"a":1}'')\<close>
proof -
  from extractJsonLd_bodies_without_lt [of two_blocks "\<lambda>body. Some (JStr body)"]
  obtain ms where ms: "exec_all jsonLdRegex None two_blocks = Some ms"
    "extractJsonLd (\<lambda>body. Some (JStr body)) two_blocks =
       Some (List.map_filter (\<lambda>m. Some (JStr (grp m 1))) ms)"
    "\<forall>m\<in>set ms. grp m 1 \<noteq> [] \<and> 60 \<notin> set (grp m 1)"
    by blast
  from ms(1) two_blocks_matches have eq: \<open>ms = [[(1, ascii ''{"a":1}'')]]\<close> by simp
  have g: \<open>grp [(1, ascii ''{"a":1}'')] 1 = ascii ''{"a":1}''\<close> by (simp add: grp_def)
  from ms(3) eq g have \<open>ascii ''{"a":1}'' \<noteq> [] \<and> 60 \<notin> set (ascii ''{"a":1}'')\<close>
    by simp
  moreover from ms(2) eq g
  have \<open>extractJsonLd (\<lambda>body. Some (JStr body)) two_blocks = Some [JStr (ascii ''{"a":1}'')]\<close>
    by (simp add: List.map_filter_simps)
  ultimately show ?thesis by simp
qed


section \<open>Properties of extractPrice\<close>









section \<open>Properties of extractImages\<close>

lemma set_add_set: "set (set_add xs x) = insert x (set xs)"
  by (auto simp: set_add_def)

lemma img_pass_kept:
  "img_pass resolve baseUrl ms images = Inr kept \<Longrightarrow> u \<in> set kept \<Longrightarrow>
     u \<in> set images \<or>
     (\<exists>m\<in>set ms. \<not> str_includes (grp m 1) (ascii ''icon'') \<and>
        \<not> str_includes (grp m 1) (ascii ''logo'') \<and>
        absolute_url resolve baseUrl (grp m 1) = Inr u)"
proof (induction ms arbitrary: images)
  case Nil
  then show ?case by simp
next
  case (Cons m ms)
  show ?case
  proof (cases "grp m 1 \<noteq> [] \<and> \<not> str_includes (grp m 1) (ascii ''icon'') \<and>
      \<not> str_includes (grp m 1) (ascii ''logo'')")
    case True
    with Cons.prems(1) obtain v where v: "absolute_url resolve baseUrl (grp m 1) = Inr v"
      "img_pass resolve baseUrl ms (set_add images v) = Inr kept"
      by (auto split: sum.splits)
    from Cons.IH [OF v(2) Cons.prems(2)] show ?thesis
    proof
      assume "u \<in> set (set_add images v)"
      then have "u = v \<or> u \<in> set images" by (simp add: set_add_set)
      with True v(1) show ?thesis by auto
    next
      assume "\<exists>m\<in>set ms. \<not> str_includes (grp m 1) (ascii ''icon'') \<and>
        \<not> str_includes (grp m 1) (ascii ''logo'') \<and>
        absolute_url resolve baseUrl (grp m 1) = Inr u"
      then show ?thesis by auto
    qed
  next
    case False
    with Cons.prems(1) have "img_pass resolve baseUrl ms images = Inr kept" by auto
    from Cons.IH [OF this Cons.prems(2)] show ?thesis by auto
  qed
qed

lemma data_src_pass_all:
  "data_src_pass resolve baseUrl ms images = Inr result \<Longrightarrow>
     set images \<subseteq> set result \<and>
     (\<forall>m\<in>set ms. grp m 1 \<noteq> [] \<longrightarrow>
        (\<exists>u\<in>set result. absolute_url resolve baseUrl (grp m 1) = Inr u))"
proof (induction ms arbitrary: images)
  case Nil
  then show ?case by simp
next
  case (Cons m ms)
  show ?case
  proof (cases "grp m 1 \<noteq> []")
    case True
    with Cons.prems obtain v where v: "absolute_url resolve baseUrl (grp m 1) = Inr v"
      "data_src_pass resolve baseUrl ms (set_add images v) = Inr result"
      by (auto split: sum.splits)
    from Cons.IH [OF v(2)] have "insert v (set images) \<subseteq> set result"
      and "\<forall>m\<in>set ms. grp m 1 \<noteq> [] \<longrightarrow>
        (\<exists>u\<in>set result. absolute_url resolve baseUrl (grp m 1) = Inr u)"
      by (simp_all add: set_add_set)
    with v(1) show ?thesis by auto
  next
    case False
    with Cons.prems have "data_src_pass resolve baseUrl ms images = Inr result" by auto
    from Cons.IH [OF this] False show ?thesis by auto
  qed
qed

lemma dataSrc_capture:
  assumes "(p', s', caps) \<in> set (matches dataSrcRegex (p, s, []))"
  shows "grp caps 1 \<noteq> []"
proof -
  have shape: "dataSrcRegex =
      seqs ([lit_i ''data-src='', quote] @ Group 1 (Plus True not_quote) # [quote])"
    by (simp add: dataSrcRegex_def)
  have pre: "list_all no_groups [lit_i ''data-src='', quote]"
    by (simp add: no_groups_lit_i quote_def)
  have g: "no_groups (Plus True not_quote)" by (simp add: Plus_def not_quote_def)
  have post: "list_all no_groups [quote]" by (simp add: quote_def)
  from seqs_group_capture [OF pre g post assms [unfolded shape]] obtain p1 p2 s2 w where
    w: "caps = [(1, w)]" "(p2, s2, []) \<in> set (matches (Plus True not_quote) (p1, w @ s2, []))"
    by blast
  from matches_min_len [OF w(2)] have "w \<noteq> []" by (auto simp: Plus_def not_quote_def)
  with w(1) show ?thesis by (simp add: grp_def)
qed

lemma min_len_imgRegex: "0 < min_len imgRegex"
  by (simp add: imgRegex_def regex_build)

lemma min_len_dataSrcRegex: "0 < min_len dataSrcRegex"
  by (simp add: dataSrcRegex_def regex_build)

text \<open>
  C8. When \<open>extractImages\<close> returns its list (no URL was refused by the runtime), every
  URL that the pass over the \<open>src\<close> attributes kept comes from a match whose URL has
  neither \<open>icon\<close> nor \<open>logo\<close> in it, while every URL found in a \<open>data-src\<close>
  attribute is in the result, whatever it contains: as it stands when it starts with
  \<open>http\<close>, resolved against the base URL otherwise.
\<close>

theorem extractImages_filter_only_in_src_pass:
  assumes "extractImages resolve html baseUrl = Some (Inr images)"
  shows "\<exists>srcs lazy kept.
     exec_all imgRegex None html = Some srcs \<and>
     exec_all dataSrcRegex None html = Some lazy \<and>
     img_pass resolve baseUrl srcs [] = Inr kept \<and>
     data_src_pass resolve baseUrl lazy kept = Inr images \<and>
     (\<forall>u\<in>set kept. \<exists>m\<in>set srcs.
        \<not> str_includes (grp m 1) (ascii ''icon'') \<and>
        \<not> str_includes (grp m 1) (ascii ''logo'') \<and>
        absolute_url resolve baseUrl (grp m 1) = Inr u) \<and>
     (\<forall>m\<in>set lazy. \<exists>u\<in>set images. absolute_url resolve baseUrl (grp m 1) = Inr u)"
proof -
  from exec_all_total [OF min_len_imgRegex] obtain srcs where
    srcs: "exec_all imgRegex None html = Some srcs" by blast
  from exec_all_total [OF min_len_dataSrcRegex] obtain lazy where
    lazy: "exec_all dataSrcRegex None html = Some lazy" by blast
  from assms srcs lazy obtain kept where
    kept: "img_pass resolve baseUrl srcs [] = Inr kept"
      "data_src_pass resolve baseUrl lazy kept = Inr images"
    by (auto simp: extractImages_def split: sum.splits)
  have a: "\<exists>m\<in>set srcs. \<not> str_includes (grp m 1) (ascii ''icon'') \<and>
        \<not> str_includes (grp m 1) (ascii ''logo'') \<and>
        absolute_url resolve baseUrl (grp m 1) = Inr u" if "u \<in> set kept" for u
    using img_pass_kept [OF kept(1) that] by simp
  have b: "\<exists>u\<in>set images. absolute_url resolve baseUrl (grp m 1) = Inr u"
    if "m \<in> set lazy" for m
  proof -
    from exec_all_member [OF lazy that] obtain p0 s0 p' s' where
      "(p', s', m) \<in> set (matches dataSrcRegex (p0, s0, []))" by blast
    then have "grp m 1 \<noteq> []" by (rule dataSrc_capture)
    with data_src_pass_all [OF kept(2)] that show ?thesis by blast
  qed
  from srcs lazy kept a b show ?thesis by blast
qed

text \<open>
  A page with a logo in a \<open>src\<close> attribute and an icon in a \<open>data-src\<close> attribute: the
  logo is left out and the icon is in the result. Both URLs are absolute, so the
  runtime's resolution of relative URLs is not called (here it would throw).
\<close>

lemma icon_page_matches:
  \<open>exec_all imgRegex None icon_page =
     Some [[(1, ascii ''http://a/logo.png'')], [(1, ascii ''http://a/icon.png'')]]\<close>
  \<open>exec_all dataSrcRegex None icon_page = Some [[(1, ascii ''http://a/icon.png'')]]\<close>
  by (simp_all add: icon_page_def imgRegex_def dataSrcRegex_def regex_build exec_all.simps)

lemma icon_page_images:
  "extractImages (\<lambda>url base. Inl NonError) icon_page (ascii ''http://a/'') =
     Some (Inr [ascii ''http://a/icon.png''])"
  unfolding extractImages_def icon_page_matches
  by (simp add: absolute_url_def starts_with_def set_add_def regex_build)

theorem extractImages_filter_only_in_src_pass_witness:
  "extractImages (\<lambda>url base. Inl NonError) icon_page (ascii ''http://a/'') =
     Some (Inr [ascii ''http://a/icon.png'']) \<and>
   absolute_url (\<lambda>url base. Inl NonError) (ascii ''http://a/'') (ascii ''http://a/icon.png'') =
     Inr (ascii ''http://a/icon.png'') \<and>
   str_includes (ascii ''http://a/icon.png'') (ascii ''icon'')"
proof -
  from extractImages_filter_only_in_src_pass [OF icon_page_images] obtain lazy where
    lazy: "exec_all dataSrcRegex None icon_page = Some lazy"
    and found: "\<forall>m\<in>set lazy. \<exists>u\<in>set [ascii ''http://a/icon.png''].
        absolute_url (\<lambda>url base. Inl NonError) (ascii ''http://a/'') (grp m 1) = Inr u"
    by blast
  from lazy icon_page_matches(2) have "lazy = [[(1, ascii ''http://a/icon.png'')]]" by simp
  with found have "absolute_url (\<lambda>url base. Inl NonError) (ascii ''http://a/'')
      (grp [(1, ascii ''http://a/icon.png'')] 1) = Inr (ascii ''http://a/icon.png'')"
    by simp
  then have "absolute_url (\<lambda>url base. Inl NonError) (ascii ''http://a/'')
      (ascii ''http://a/icon.png'') = Inr (ascii ''http://a/icon.png'')"
    by (simp add: grp_def)
  moreover have "str_includes (ascii ''http://a/icon.png'') (ascii ''icon'')"
    by (simp add: ascii_def starts_with_def)
  ultimately show ?thesis using icon_page_images by simp
qed

section \<open>Properties of scrapeSizeChart\<close>

lemma min_len_tableRegex: "0 < min_len tableRegex"
  by (simp add: tableRegex_def regex_build)

lemma min_len_headerRegex: "0 < min_len headerRegex"
  by (simp add: headerRegex_def regex_build)

lemma min_len_rowRegex: "0 < min_len rowRegex"
  by (simp add: rowRegex_def regex_build)

lemma min_len_cellRegex: "0 < min_len cellRegex"
  by (simp add: cellRegex_def regex_build)

lemma parse_rows_total: "\<exists>filled. parse_rows lower headers rows sizeChart = Some filled"
proof (induction rows arbitrary: sizeChart)
  case Nil
  then show ?case by simp
next
  case (Cons row rows)
  from exec_all_total [OF min_len_cellRegex] obtain cells where
    "exec_all cellRegex None (grp row 1) = Some cells" by blast
  with Cons.IH show ?case by simp
qed

lemma parse_table_total: "\<exists>filled. parse_table lower tableHtml sizeChart = Some filled"
proof -
  from exec_all_total [OF min_len_headerRegex] obtain hs where
    "exec_all headerRegex None tableHtml = Some hs" by blast
  moreover from exec_all_total [OF min_len_rowRegex] obtain rows where
    "exec_all rowRegex None tableHtml = Some rows" by blast
  ultimately show ?thesis
    using parse_rows_total by (simp add: parse_table_def)
qed

lemma scan_tables_total: "\<exists>filled. scan_tables lower tables sizeChart = Some filled"
proof (induction tables arbitrary: sizeChart)
  case Nil
  then show ?case by simp
next
  case (Cons t tables)
  from parse_table_total obtain filled where
    "parse_table lower t sizeChart = Some filled" by blast
  with Cons.IH show ?case by simp
qed

lemma scrapeSizeChart_try_total: "\<exists>outcome. scrapeSizeChart_try lower fetched = Some outcome"
proof (cases fetched)
  case (Inl e)
  then show ?thesis by (simp add: scrapeSizeChart_try_def)
next
  case (Inr html)
  from exec_all_total [OF min_len_tableRegex] obtain tables where
    "exec_all tableRegex None html = Some tables" by blast
  moreover from scan_tables_total obtain filled where
    "scan_tables lower (map (\<lambda>m. grp m 1) tables) Map.empty = Some filled" by blast
  ultimately show ?thesis using Inr by (simp add: scrapeSizeChart_try_def)
qed

lemma scan_tables_pass:
  "\<forall>t\<in>set before. \<not> test keywordRegex t \<or> parse_table lower t Map.empty = Some Map.empty \<Longrightarrow>
   scan_tables lower (before @ tables) Map.empty = scan_tables lower tables Map.empty"
  by (induction before) auto

lemma scan_tables_stop:
  "test keywordRegex t \<Longrightarrow> parse_table lower t Map.empty = Some sizeChart \<Longrightarrow>
   sizeChart \<noteq> Map.empty \<Longrightarrow> scan_tables lower (t # tables) Map.empty = Some sizeChart"
  by simp

lemma scrapeSizeChart_tables:
  "exec_all tableRegex None html = Some ms \<Longrightarrow>
   scrapeSizeChart lower (Inr html) =
     map_option Inr (scan_tables lower (map (\<lambda>m. grp m 1) ms) Map.empty)"
  by (cases "scan_tables lower (map (\<lambda>m. grp m 1) ms) Map.empty")
    (simp_all add: scrapeSizeChart_def scrapeSizeChart_try_def)

text \<open>
  C4 (as amended). For every size-guide HTML with two \<open><table>\<close> elements where the
  text of the first has none of the words \<open>size\<close>, \<open>chest\<close>, \<open>waist\<close>, \<open>length\<close> (in any
  case), the chart returned by \<open>scrapeSizeChart\<close> is built from the second table alone.
  In general the tables are scanned in document order and the scan stops at the first
  table that yields a size: when every table before \<open>t\<close> is passed over or yields no size
  and \<open>t\<close> has a keyword and yields the non-empty chart \<open>sizeChart\<close>, that chart is the
  result, whatever follows \<open>t\<close>.
\<close>

theorem scrapeSizeChart_first_yielding_table:
  "(\<forall>m1 m2. exec_all tableRegex None html = Some [m1, m2] \<and> \<not> test keywordRegex (grp m1 1) \<longrightarrow>
      scrapeSizeChart lower (Inr html) =
        map_option Inr (scan_tables lower [grp m2 1] Map.empty)) \<and>
   (\<forall>ms before t after sizeChart.
      exec_all tableRegex None html = Some ms \<and> map (\<lambda>m. grp m 1) ms = before @ t # after \<and>
      (\<forall>t'\<in>set before. \<not> test keywordRegex t' \<or>
                         parse_table lower t' Map.empty = Some Map.empty) \<and>
      test keywordRegex t \<and> parse_table lower t Map.empty = Some sizeChart \<and>
      sizeChart \<noteq> Map.empty \<longrightarrow>
      scrapeSizeChart lower (Inr html) = Some (Inr sizeChart))"
proof (intro conjI allI impI)
  fix m1 m2
  assume a: "exec_all tableRegex None html = Some [m1, m2] \<and> \<not> test keywordRegex (grp m1 1)"
  then have "scrapeSizeChart lower (Inr html) =
      map_option Inr (scan_tables lower (map (\<lambda>m. grp m 1) [m1, m2]) Map.empty)"
    by (simp add: scrapeSizeChart_tables)
  with a show "scrapeSizeChart lower (Inr html) =
      map_option Inr (scan_tables lower [grp m2 1] Map.empty)"
    by simp
next
  fix ms before t after sizeChart
  assume a: "exec_all tableRegex None html = Some ms \<and>
      map (\<lambda>m. grp m 1) ms = before @ t # after \<and>
      (\<forall>t'\<in>set before. \<not> test keywordRegex t' \<or>
                         parse_table lower t' Map.empty = Some Map.empty) \<and>
      test keywordRegex t \<and> parse_table lower t Map.empty = Some sizeChart \<and>
      sizeChart \<noteq> Map.empty"
  then have "scan_tables lower (before @ t # after) Map.empty =
      scan_tables lower (t # after) Map.empty"
    by (simp add: scan_tables_pass)
  also from a have "\<dots> = Some sizeChart"
    by (simp add: scan_tables_stop)
  finally show "scrapeSizeChart lower (Inr html) = Some (Inr sizeChart)"
    using a by (simp add: scrapeSizeChart_tables)
qed

lemmas chart_run =
  scrapeSizeChart_def scrapeSizeChart_try_def parse_table_def add_row_def assign_def
  row_measurements_def trim_def parseFloat_def starts_with_def is_digit_def digits_value_def
  lower_ascii_def Let_def exec_all.simps
  tableRegex_def keywordRegex_def headerRegex_def rowRegex_def cellRegex_def sizeLabelRegex_def
  regex_build

text \<open>
  A page whose first table has sizes but no keyword, and whose second table is a chest
  chart: the result is the chart of the second table.
\<close>

lemma plain_then_chest_tables:
  "exec_all tableRegex None plain_then_chest = Some [[(1, plain_table)], [(1, chest_table)]]"
  by (simp add: plain_then_chest_def plain_table_def chest_table_def tableRegex_def regex_build
      exec_all.simps)

lemma plain_table_keyword: "\<not> test keywordRegex plain_table"
  by (simp add: plain_table_def keywordRegex_def regex_build)

lemma chest_table_chart:
  "scan_tables lower_ascii [chest_table] Map.empty =
     Some [ascii ''L'' \<mapsto> [ascii ''chest'' \<mapsto> Num 40]]"
  by (simp add: chest_table_def chart_run)

theorem scrapeSizeChart_first_yielding_table_witness:
  "scrapeSizeChart lower_ascii (Inr plain_then_chest) =
     Some (Inr [ascii ''L'' \<mapsto> [ascii ''chest'' \<mapsto> Num 40]])"
proof -
  have "exec_all tableRegex None plain_then_chest = Some [[(1, plain_table)], [(1, chest_table)]] \<and>
      \<not> test keywordRegex (grp [(1, plain_table)] 1)"
    using plain_then_chest_tables plain_table_keyword by (simp add: grp_def)
  with scrapeSizeChart_first_yielding_table [of plain_then_chest lower_ascii]
  have r: "scrapeSizeChart lower_ascii (Inr plain_then_chest) =
      map_option Inr (scan_tables lower_ascii [grp [(1, chest_table)] 1] Map.empty)"
    by blast
  have g: "grp [(1, chest_table)] 1 = chest_table" by (simp add: grp_def)
  show ?thesis unfolding r g chest_table_chart by simp
qed

text \<open>
  C4 as stated fails on a page whose first table is a waist chart and whose second table
  is a chest chart: the word \<open>chest\<close> is in the second table only, but the first table
  has the keywords \<open>size\<close> and \<open>waist\<close> and yields the size \<open>M\<close>, so the scan stops there
  and the result is the chart of the first table, not the chart of the second.
\<close>

lemma waist_then_chest_tables:
  "exec_all tableRegex None waist_then_chest = Some [[(1, waist_table)], [(1, chest_table)]]"
  by (simp add: waist_then_chest_def waist_table_def chest_table_def tableRegex_def regex_build
      exec_all.simps)

lemma chest_only_in_second:
  "\<not> test (lit_i ''chest'') waist_table" "test (lit_i ''chest'') chest_table"
  by (simp_all add: waist_table_def chest_table_def regex_build)

lemma waist_table_chart:
  "scan_tables lower_ascii [waist_table, chest_table] Map.empty =
     Some [ascii ''M'' \<mapsto> [ascii ''waist'' \<mapsto> Num 32]]"
  by (simp add: waist_table_def chart_run)

theorem scrapeSizeChart_chest_only_counterexample:
  "exec_all tableRegex None waist_then_chest = Some [[(1, waist_table)], [(1, chest_table)]] \<and>
   \<not> test (lit_i ''chest'') waist_table \<and> test (lit_i ''chest'') chest_table \<and>
   scrapeSizeChart lower_ascii (Inr waist_then_chest) =
     Some (Inr [ascii ''M'' \<mapsto> [ascii ''waist'' \<mapsto> Num 32]]) \<and>
   scan_tables lower_ascii [chest_table] Map.empty =
     Some [ascii ''L'' \<mapsto> [ascii ''chest'' \<mapsto> Num 40]] \<and>
   [ascii ''M'' \<mapsto> [ascii ''waist'' \<mapsto> Num 32]] (ascii ''L'') = None"
proof -
  have m: "map (\<lambda>m. grp m 1) [[(1, waist_table)], [(1, chest_table)]] =
      [waist_table, chest_table]"
    by (simp add: grp_def)
  have "scrapeSizeChart lower_ascii (Inr waist_then_chest) =
      Some (Inr [ascii ''M'' \<mapsto> [ascii ''waist'' \<mapsto> Num 32]])"
    unfolding scrapeSizeChart_tables [OF waist_then_chest_tables] m waist_table_chart by simp
  moreover have "[ascii ''M'' \<mapsto> [ascii ''waist'' \<mapsto> Num 32]] (ascii ''L'') = None"
    by (simp add: ascii_def)
  ultimately show ?thesis
    using waist_then_chest_tables chest_only_in_second chest_table_chart by blast
qed


section \<open>Properties of the two scraping operations\<close>

lemma extractMetaTags_total: "\<exists>metaTags. extractMetaTags html = Some metaTags"
proof -
  from exec_all_total [OF min_len_ogRegex] obtain og where
    "exec_all ogRegex None html = Some og" by blast
  moreover from exec_all_total [OF min_len_twitterRegex] obtain tw where
    "exec_all twitterRegex None html = Some tw" by blast
  moreover from exec_all_total [OF min_len_metaRegex] obtain me where
    "exec_all metaRegex None html = Some me" by blast
  ultimately show ?thesis by (simp add: extractMetaTags_def)
qed

lemma extractJsonLd_total: "\<exists>jsonLd. extractJsonLd parse html = Some jsonLd"
proof -
  from exec_all_total [OF min_len_jsonLdRegex] obtain ms where
    "exec_all jsonLdRegex None html = Some ms" by blast
  then show ?thesis by (simp add: extractJsonLd_def)
qed

lemma extractImages_total: "\<exists>extracted. extractImages resolve html baseUrl = Some extracted"
proof -
  from exec_all_total [OF min_len_imgRegex] obtain srcs where
    "exec_all imgRegex None html = Some srcs" by blast
  moreover from exec_all_total [OF min_len_dataSrcRegex] obtain lazy where
    "exec_all dataSrcRegex None html = Some lazy" by blast
  ultimately show ?thesis by (simp add: extractImages_def)
qed

lemma size_passes_total:
  "list_all (\<lambda>pattern. 0 < min_len pattern) patterns \<Longrightarrow>
   \<exists>found. size_passes upper patterns html acc = Some found"
proof (induction patterns arbitrary: acc)
  case Nil
  then show ?case by simp
next
  case (Cons pattern patterns)
  then have "0 < min_len pattern" by simp
  from exec_all_total [OF this] obtain ms where "exec_all pattern None html = Some ms" by blast
  with Cons show ?case by simp
qed

lemma extractSizes_total: "\<exists>found. extractSizes upper html = Some found"
  unfolding extractSizes_def
  by (rule size_passes_total) (simp add: sizePatterns_def regex_build)

lemma scrapeProductPage_try_total:
  "\<exists>outcome. scrapeProductPage_try h url fetched = Some outcome"
proof (cases fetched)
  case (Inl e)
  then show ?thesis by (simp add: scrapeProductPage_try_def)
next
  case (Inr html)
  from extractMetaTags_total obtain metaTags where
    "extractMetaTags html = Some metaTags" by blast
  moreover from extractJsonLd_total obtain jsonLd where
    "extractJsonLd (JSON_parse h) html = Some jsonLd" by blast
  moreover from extractImages_total obtain extracted where
    "extractImages (URL_resolve h) html url = Some extracted" by blast
  moreover from extractSizes_total obtain found where
    "extractSizes (toUpperCase h) html = Some found" by blast
  ultimately show ?thesis using Inr by (simp add: scrapeProductPage_try_def)
qed

lemma null_page_matches:
  "exec_all jsonLdRegex None null_page = Some [[(1, ascii ''null'')]]"
  "exec_all imgRegex None null_page = Some []"
  "exec_all dataSrcRegex None null_page = Some []"
  by (simp_all add: null_page_def jsonLdRegex_def imgRegex_def dataSrcRegex_def regex_build
      exec_all.simps)

lemma null_page_try:
  "scrapeProductPage_try null_host url (Inr null_page) = Some (Inl (cannot_read ''null'' ''@type''))"
proof -
  from extractMetaTags_total obtain metaTags where
    "extractMetaTags null_page = Some metaTags" by blast
  moreover have "extractJsonLd (JSON_parse null_host) null_page = Some [JNull]"
    unfolding extractJsonLd_def null_page_matches
    by (simp add: List.map_filter_simps grp_def null_host_def)
  moreover have "extractImages (URL_resolve null_host) null_page url = Some (Inr [])"
    unfolding extractImages_def null_page_matches
    by (simp add: set_add_def)
  moreover from extractSizes_total obtain found where
    "extractSizes (toUpperCase null_host) null_page = Some found" by blast
  ultimately show ?thesis
    by (simp add: scrapeProductPage_try_def backfill_block_def)
qed

text \<open>
  C5. \<open>scrapeSizeChart\<close> always resolves, never rejects: its \<open>try\<close> block always ends,
  and the outcome of the function is the chart of the block, or the empty chart when the
  block threw, as it does when the fetch fails. \<open>scrapeProductPage\<close> always settles too:
  its \<open>try\<close> block always ends, the function resolves to the product of the block, and
  whatever the block threw, at the fetch or after it, is thrown again as an \<open>Error\<close>
  whose message is \<open>Failed to scrape product page: \<close> followed by the message of the
  cause (or by \<open>Unknown error\<close> when the cause is not an \<open>Error\<close>).
\<close>

theorem soft_and_hard_failure:
  "(\<exists>outcome. scrapeSizeChart_try lower fetched = Some outcome \<and>
      scrapeSizeChart lower fetched =
        Some (Inr (case outcome of Inl e \<Rightarrow> Map.empty | Inr sizeChart \<Rightarrow> sizeChart))) \<and>
   scrapeSizeChart lower (Inl e) = Some (Inr Map.empty) \<and>
   (\<exists>outcome. scrapeProductPage_try h url fetched = Some outcome \<and>
      scrapeProductPage h url fetched =
        Some (case outcome of
                Inl cause \<Rightarrow>
                  Inl (JsError (ascii ''Failed to scrape product page: '' @
                    (case cause of JsError message \<Rightarrow> message
                     | NonError \<Rightarrow> ascii ''Unknown error'')))
              | Inr productData \<Rightarrow> Inr productData)) \<and>
   scrapeProductPage h url (Inl e) =
     Some (Inl (JsError (ascii ''Failed to scrape product page: '' @
       (case e of JsError message \<Rightarrow> message | NonError \<Rightarrow> ascii ''Unknown error''))))"
proof (intro conjI)
  from scrapeSizeChart_try_total obtain outcome where
    "scrapeSizeChart_try lower fetched = Some outcome" by blast
  then have "scrapeSizeChart lower fetched =
        Some (Inr (case outcome of Inl e \<Rightarrow> Map.empty | Inr sizeChart \<Rightarrow> sizeChart))"
    by (cases outcome) (simp_all add: scrapeSizeChart_def)
  with \<open>scrapeSizeChart_try lower fetched = Some outcome\<close>
  show "\<exists>outcome. scrapeSizeChart_try lower fetched = Some outcome \<and>
      scrapeSizeChart lower fetched =
        Some (Inr (case outcome of Inl e \<Rightarrow> Map.empty | Inr sizeChart \<Rightarrow> sizeChart))"
    by blast
next
  show "scrapeSizeChart lower (Inl e) = Some (Inr Map.empty)"
    by (simp add: scrapeSizeChart_def scrapeSizeChart_try_def)
next
  from scrapeProductPage_try_total obtain outcome where
    outcome: "scrapeProductPage_try h url fetched = Some outcome" by blast
  then have "scrapeProductPage h url fetched =
        Some (case outcome of
                Inl cause \<Rightarrow>
                  Inl (JsError (ascii ''Failed to scrape product page: '' @
                    (case cause of JsError message \<Rightarrow> message
                     | NonError \<Rightarrow> ascii ''Unknown error'')))
              | Inr productData \<Rightarrow> Inr productData)"
    by (simp add: scrapeProductPage_def)
  with outcome
  show "\<exists>outcome. scrapeProductPage_try h url fetched = Some outcome \<and>
      scrapeProductPage h url fetched =
        Some (case outcome of
                Inl cause \<Rightarrow>
                  Inl (JsError (ascii ''Failed to scrape product page: '' @
                    (case cause of JsError message \<Rightarrow> message
                     | NonError \<Rightarrow> ascii ''Unknown error'')))
              | Inr productData \<Rightarrow> Inr productData)"
    by blast
next
  show "scrapeProductPage h url (Inl e) =
     Some (Inl (JsError (ascii ''Failed to scrape product page: '' @
       (case e of JsError message \<Rightarrow> message | NonError \<Rightarrow> ascii ''Unknown error''))))"
    by (simp add: scrapeProductPage_def scrapeProductPage_try_def)
qed

text \<open>
  A failure after the fetch: the page is fetched, its JSON-LD block parses to \<open>null\<close>, and
  the loop over the blocks throws the \<open>TypeError\<close> of reading \<open>@type\<close> on \<open>null\<close>. The
  \<open>try\<close> block ends with that error and \<open>scrapeProductPage\<close> rejects with its message
  behind the prefix.
\<close>

theorem soft_and_hard_failure_witness:
  "scrapeProductPage_try null_host (ascii ''http://a/'') (Inr null_page) =
     Some (Inl (JsError (ascii ''Cannot read properties of null (reading '' @ [39] @
       ascii ''@type'' @ [39] @ ascii '')''))) \<and>
   scrapeProductPage null_host (ascii ''http://a/'') (Inr null_page) =
     Some (Inl (JsError (ascii ''Failed to scrape product page: '' @
       ascii ''Cannot read properties of null (reading '' @ [39] @ ascii ''@type'' @ [39] @
       ascii '')'')))"
proof -
  from soft_and_hard_failure [where h = null_host and url = "ascii ''http://a/''"
      and fetched = "Inr null_page"]
  obtain outcome where
    outcome: "scrapeProductPage_try null_host (ascii ''http://a/'') (Inr null_page) = Some outcome"
    and rethrown: "scrapeProductPage null_host (ascii ''http://a/'') (Inr null_page) =
        Some (case outcome of
                Inl cause \<Rightarrow>
                  Inl (JsError (ascii ''Failed to scrape product page: '' @
                    (case cause of JsError message \<Rightarrow> message
                     | NonError \<Rightarrow> ascii ''Unknown error'')))
              | Inr productData \<Rightarrow> Inr productData)"
    by blast
  from outcome have "outcome = Inl (cannot_read ''null'' ''@type'')"
    by (simp add: null_page_try)
  with outcome rethrown show ?thesis
    by (simp add: cannot_read_def ascii_def)
qed


section \<open>Properties of the JSON-LD backfill\<close>










end
